theory Spec2Isabelle
  imports Complex_Main "HOL-Library.AList"
begin

section \<open>Errors and floating-point conventions\<close>

text \<open>
  The exceptions the Python code can raise, as values. Fallible functions return
  \<open>error + 'a\<close>, with \<open>Inl\<close> for the raised exception.

  Floating-point numbers are modelled by the reals: rounding is not modelled. A quotient
  whose divisor is zero is no real number (Python's float division raises
  ZeroDivisionError, numpy's gives inf or nan), so divisions by a value that can be zero
  go through \<open>fdiv\<close>.
\<close>

datatype error =
    TypeError | ValueError | KeyError | IndexError | ZeroDivisionError
  | LinAlgError | CircuitError | ModelError

definition fdiv :: "real \<Rightarrow> real \<Rightarrow> error + real" where
  "fdiv a b = (if b = 0 then Inl ZeroDivisionError else Inr (a / b))"

definition bind_err :: "error + 'a \<Rightarrow> ('a \<Rightarrow> error + 'b) \<Rightarrow> error + 'b" where
  "bind_err m f = (case m of Inl e \<Rightarrow> Inl e | Inr v \<Rightarrow> f v)"

section \<open>Material model (emc/non_linear_bh.py)\<close>

text \<open>
  A \<open>bh_model\<close> object holds two interpolants, \<open>hb\<close> (flux density over field strength)
  and \<open>hu\<close> (permeability over field strength). They are scipy CubicSpline objects built
  by the constructor from a data file; here they are functions on the reals, given with
  the model. The constant \<open>const.mu0\<close> comes from emc/constants.py; it is the parameter
  \<open>mu0\<close> of every function that uses it.
\<close>

record bh_model =
  name :: string
  hb :: "real \<Rightarrow> real"
  hu :: "real \<Rightarrow> real"

definition fp :: "(real \<Rightarrow> real) \<Rightarrow> real \<Rightarrow> real" where
  "fp inter_bhcurve x = (let eps = 1 / 1000 in (inter_bhcurve (x + eps) - inter_bhcurve x) / eps)"

definition bh_model_mur :: "real \<Rightarrow> bh_model \<Rightarrow> real \<Rightarrow> error + real" where
  "bh_model_mur mu0 self H =
     (if H > 0 then bind_err (fdiv (hb self H) H) (\<lambda>q. fdiv q mu0)
      else fdiv (hb self 1) mu0)"

definition dmu_dH :: "bh_model \<Rightarrow> real \<Rightarrow> real" where
  "dmu_dH self H = fp (hu self) H"

definition bh_model_mur_d :: "real \<Rightarrow> bh_model \<Rightarrow> real \<Rightarrow> error + real" where
  "bh_model_mur_d mu0 self H =
     bind_err (bh_model_mur mu0 self H) (\<lambda>mur.
     bind_err (fdiv (dmu_dH self H) mu0) (\<lambda>dmur_dH.
     Inr (mur + dmur_dH * H)))"

section \<open>Circuit elements (emc/components)\<close>

text \<open>
  \<open>Component\<close> is the base class with the identifier and the two terminals (internal
  node numbers, 0 for ground). \<open>Permeance\<close>, \<open>MMFSource\<close> and \<open>PHISource\<close> extend it.
  The field \<open>value\<close> of the two sources is called \<open>val\<close> here.
\<close>

record component =
  part_id :: string
  n1 :: int
  n2 :: int

record permeance = component +
  mur :: real
  mur_d :: real
  w :: real
  d :: real
  l :: real
  model_label :: "string option"

record source = component +
  val :: real

datatype elem = Permeance permeance | MMFSource source | PHISource source

text \<open>The constructor of \<open>Permeance\<close>: \<open>mur_d\<close> starts as \<open>mur\<close>.\<close>

definition Permeance_init ::
  "string \<Rightarrow> int \<Rightarrow> int \<Rightarrow> real \<Rightarrow> real \<Rightarrow> real \<Rightarrow> real \<Rightarrow> string option \<Rightarrow> permeance" where
  "Permeance_init pid a b mur0 w0 d0 l0 lbl =
     \<lparr>part_id = pid, n1 = a, n2 = b, mur = mur0, mur_d = mur0, w = w0, d = d0, l = l0,
      model_label = lbl\<rparr>"

definition Permeance_P :: "real \<Rightarrow> permeance \<Rightarrow> error + real" where
  "Permeance_P mu0 self =
     bind_err (fdiv (mu0 * mur self * w self * d self) (l self)) (\<lambda>q. Inr (q * (1 / 1000)))"

definition Permeance_dP :: "real \<Rightarrow> permeance \<Rightarrow> error + real" where
  "Permeance_dP mu0 self =
     bind_err (fdiv (mu0 * mur_d self * w self * d self) (l self)) (\<lambda>q. Inr (q * (1 / 1000)))"

section \<open>The circuit (emc/circuit.py)\<close>

text \<open>
  \<open>Circuit\<close> is a Python list of elements with three more attributes used here:
  \<open>nodes_dict\<close>, one dictionary holding both directions of the node numbering (an
  integer key maps to a name and a name to an integer), and \<open>models\<close>, the registry of
  material models. The only writes to \<open>nodes_dict\<close> are the two updates of
  \<open>create_node\<close> and \<open>add_node\<close>, so an integer key always holds a name and a name
  always holds an integer: the dictionary is kept as two association lists, one per kind
  of key, and its length is the sum of theirs. \<open>AList.update\<close> overwrites an existing
  key and appends a new one, as a Python dict does.
  The methods mutate the circuit; here they take it and return it with their result.
  Node names are strings, so the TypeError of \<open>create_node\<close> and \<open>add_node\<close> for a
  name that is no string has no branch.
\<close>

type_synonym nodes_dict = "(int \<times> string) list \<times> (string \<times> int) list"

record circuit =
  elems :: "elem list"
  nodes_dict :: nodes_dict
  models :: "string \<rightharpoonup> bh_model"

definition Circuit_init :: circuit where
  "Circuit_init = \<lparr>elems = [], nodes_dict = ([], []), models = Map.empty\<rparr>"

definition len :: "nodes_dict \<Rightarrow> nat" where
  "len dict = length (fst dict) + length (snd dict)"

definition has_int :: "nodes_dict \<Rightarrow> int \<Rightarrow> bool" where
  "has_int dict k = (map_of (fst dict) k \<noteq> None)"

definition has_name :: "nodes_dict \<Rightarrow> string \<Rightarrow> bool" where
  "has_name dict k = (map_of (snd dict) k \<noteq> None)"

text \<open>The two updates \<open>{int_node: name}\<close> and \<open>{name: int_node}\<close>.\<close>

definition register :: "int \<Rightarrow> string \<Rightarrow> nodes_dict \<Rightarrow> nodes_dict" where
  "register int_node nm dict = (AList.update int_node nm (fst dict), AList.update nm int_node (snd dict))"

definition new_int_node :: "nodes_dict \<Rightarrow> bool \<Rightarrow> int" where
  "new_int_node dict got_ref = int (len dict) div 2 + (if got_ref then 0 else 1)"

definition create_node :: "string \<Rightarrow> circuit \<Rightarrow> (error + string) \<times> circuit" where
  "create_node nm self =
     (let got_ref = has_int (nodes_dict self) 0 in
      if \<not> has_name (nodes_dict self) nm then
        let int_node = (if nm = ''0'' then 0 else new_int_node (nodes_dict self) got_ref)
        in (Inr nm, self\<lparr>nodes_dict := register int_node nm (nodes_dict self)\<rparr>)
      else (Inl ValueError, self))"

definition add_node :: "string \<Rightarrow> circuit \<Rightarrow> int \<times> circuit" where
  "add_node ext_name self =
     (case map_of (snd (nodes_dict self)) ext_name of
        None \<Rightarrow>
          let int_node = (if ext_name = ''0'' then 0
                          else new_int_node (nodes_dict self) (has_int (nodes_dict self) 0))
          in (int_node, self\<lparr>nodes_dict := register int_node ext_name (nodes_dict self)\<rparr>)
      | Some int_node \<Rightarrow> (int_node, self))"

definition get_nodes_number :: "circuit \<Rightarrow> int" where
  "get_nodes_number self = int (len (nodes_dict self)) div 2"

definition get_ground_node :: string where
  "get_ground_node = ''0''"

text \<open>
  \<open>add_model\<close> builds the model from its data file and registers it under the label.
  The constructor of \<open>bh_model\<close> (file reading, spline fitting) is not modelled: the built
  model is the argument \<open>model_iter\<close>. The model type is the string \<open>model_type\<close>.
\<close>

definition add_model :: "string \<Rightarrow> string \<Rightarrow> bh_model \<Rightarrow> circuit \<Rightarrow> (error + unit) \<times> circuit" where
  "add_model model_type lbl model_iter self =
     (if model_type = ''BH''
      then (Inr (), self\<lparr>models := (models self)(lbl \<mapsto> model_iter\<lparr>name := lbl\<rparr>)\<rparr>)
      else (Inl CircuitError, self))"

definition remove_model :: "string \<Rightarrow> circuit \<Rightarrow> circuit" where
  "remove_model lbl self = self\<lparr>models := (models self)(lbl := None)\<rparr>"

text \<open>
  The three element constructors resolve both node names first (creating the nodes that
  are new), then validate, then append. A raise after the node calls leaves the circuit
  with the nodes: the returned circuit is the one at the point of the raise.
\<close>

definition add_permeance ::
  "string \<Rightarrow> string \<Rightarrow> string \<Rightarrow> real \<Rightarrow> real \<Rightarrow> real \<Rightarrow> real \<Rightarrow> string option \<Rightarrow> circuit
   \<Rightarrow> (error + unit) \<times> circuit" where
  "add_permeance pid a b mur0 w0 d0 l0 lbl self =
     (let (i1, c1) = add_node a self;
          (i2, c2) = add_node b c1
      in if w0 = 0 \<or> d0 = 0 \<or> l0 = 0 then (Inl CircuitError, c2)
         else if lbl \<noteq> None \<and> the lbl \<notin> dom (models c2) then (Inl ModelError, c2)
         else (Inr (), c2\<lparr>elems := elems c2 @ [Permeance (Permeance_init pid i1 i2 mur0 w0 d0 l0 lbl)]\<rparr>))"

definition add_mmf_source ::
  "string \<Rightarrow> string \<Rightarrow> string \<Rightarrow> real \<Rightarrow> circuit \<Rightarrow> circuit" where
  "add_mmf_source pid a b v self =
     (let (i1, c1) = add_node a self;
          (i2, c2) = add_node b c1
      in c2\<lparr>elems := elems c2 @ [MMFSource \<lparr>part_id = pid, n1 = i1, n2 = i2, val = v\<rparr>]\<rparr>)"

definition add_phi_source ::
  "string \<Rightarrow> string \<Rightarrow> string \<Rightarrow> real \<Rightarrow> circuit \<Rightarrow> circuit" where
  "add_phi_source pid a b v self =
     (let (i1, c1) = add_node a self;
          (i2, c2) = add_node b c1
      in c2\<lparr>elems := elems c2 @ [PHISource \<lparr>part_id = pid, n1 = i1, n2 = i2, val = v\<rparr>]\<rparr>)"

fun is_MMFSource :: "elem \<Rightarrow> bool" where
  "is_MMFSource (MMFSource s) = True"
| "is_MMFSource _ = False"

definition get_MMFs_number :: "circuit \<Rightarrow> int" where
  "get_MMFs_number self = int (length (filter is_MMFSource (elems self)))"


section \<open>numpy arrays\<close>

text \<open>
  A column vector of shape \<open>(n,1)\<close> is a list of reals, a matrix of shape \<open>(n,n)\<close> a list
  of rows. An index is a Python integer: a negative index counts from the end, and an
  index outside the array raises IndexError.
\<close>

type_synonym vec = "real list"
type_synonym mat = "real list list"

definition py_index :: "nat \<Rightarrow> int \<Rightarrow> error + nat" where
  "py_index n i =
     (let j = (if i < 0 then int n + i else i)
      in if 0 \<le> j \<and> j < int n then Inr (nat j) else Inl IndexError)"

definition vec_get :: "vec \<Rightarrow> int \<Rightarrow> error + real" where
  "vec_get v i = bind_err (py_index (length v) i) (\<lambda>j. Inr (v ! j))"

definition vec_set :: "vec \<Rightarrow> int \<Rightarrow> real \<Rightarrow> error + vec" where
  "vec_set v i a = bind_err (py_index (length v) i) (\<lambda>j. Inr (v[j := a]))"

definition mat_get :: "mat \<Rightarrow> int \<Rightarrow> int \<Rightarrow> error + real" where
  "mat_get M i j =
     bind_err (py_index (length M) i) (\<lambda>r.
     bind_err (py_index (length (M ! r)) j) (\<lambda>c. Inr (M ! r ! c)))"

definition mat_set :: "mat \<Rightarrow> int \<Rightarrow> int \<Rightarrow> real \<Rightarrow> error + mat" where
  "mat_set M i j a =
     bind_err (py_index (length M) i) (\<lambda>r.
     bind_err (py_index (length (M ! r)) j) (\<lambda>c. Inr (M[r := (M ! r)[c := a]])))"

definition zeros_vec :: "nat \<Rightarrow> vec" where
  "zeros_vec n = replicate n 0"

definition zeros_mat :: "nat \<Rightarrow> mat" where
  "zeros_mat n = replicate n (replicate n 0)"

fun dot :: "real list \<Rightarrow> real list \<Rightarrow> real" where
  "dot (a # u) (b # v) = a * b + dot u v"
| "dot _ _ = 0"

text \<open>\<open>M.dot(v)\<close> for an \<open>(n,n)\<close> matrix and an \<open>(n,1)\<close> vector; the shapes agree wherever it is called.\<close>

definition mat_vec :: "mat \<Rightarrow> vec \<Rightarrow> vec" where
  "mat_vec M v = map (\<lambda>row. dot row v) M"

definition vec_sub :: "vec \<Rightarrow> vec \<Rightarrow> vec" where
  "vec_sub u v = map2 (\<lambda>a b. a - b) u v"

definition vec_add :: "vec \<Rightarrow> vec \<Rightarrow> vec" where
  "vec_add u v = map2 (\<lambda>a b. a + b) u v"

definition vec_scale :: "real \<Rightarrow> vec \<Rightarrow> vec" where
  "vec_scale g v = map (\<lambda>a. g * a) v"

text \<open>\<open>np.linalg.norm\<close> of a column vector: the Euclidean norm.\<close>

definition linalg_norm :: "vec \<Rightarrow> real" where
  "linalg_norm v = sqrt (sum_list (map (\<lambda>a. a * a) v))"

subsection \<open>np.linalg.solve\<close>

text \<open>
  \<open>np.linalg.solve(A, b)\<close> belongs to numpy, not to the repository. It factorises
  \<open>A\<close> in floating point (LU with partial pivoting), returns the solution of
  \<open>A x = b\<close> and raises LinAlgError for a non-square \<open>A\<close> or when the factorisation meets
  an exactly zero pivot.

  For a matrix that is not singular the model returns the exact solution, by Gaussian
  elimination on the equations \<open>(row of A, entry of b)\<close>: take the first equation whose
  leading coefficient is not zero as pivot, eliminate the first unknown from the others,
  solve the smaller system, substitute back. For a singular matrix the elimination finds
  no pivot; what the floating-point factorisation does there depends on its rounding and
  is the parameter \<open>lu\<close> of the model: \<open>lu A b = None\<close> when it meets a zero pivot
  and raises, \<open>lu A b = Some y\<close> when rounding leaves every pivot non-zero and it
  returns the vector \<open>y\<close>.
\<close>

type_synonym singular_lu = "real list list \<Rightarrow> real list \<Rightarrow> real list option"

type_synonym eqn = "real list \<times> real"

definition lead :: "eqn \<Rightarrow> real" where
  "lead r = (case fst r of [] \<Rightarrow> 0 | a # _ \<Rightarrow> a)"

fun find_pivot :: "eqn list \<Rightarrow> (eqn \<times> eqn list) option" where
  "find_pivot [] = None"
| "find_pivot (r # rs) =
     (if lead r \<noteq> 0 then Some (r, rs)
      else (case find_pivot rs of None \<Rightarrow> None | Some (p, rest) \<Rightarrow> Some (p, r # rest)))"

definition elim :: "eqn \<Rightarrow> eqn \<Rightarrow> eqn" where
  "elim p q = (let f = lead q / lead p
               in (map2 (\<lambda>u v. u - f * v) (tl (fst q)) (tl (fst p)), snd q - f * snd p))"

lemma find_pivot_length:
  "find_pivot rows = Some (p, rest) \<Longrightarrow> Suc (length rest) = length rows"
  by (induction rows arbitrary: p rest) (auto split: if_splits option.splits)

function gauss :: "eqn list \<Rightarrow> real list option" where
  "gauss [] = Some []"
| "gauss (r # rs) =
     (case find_pivot (r # rs) of
        None \<Rightarrow> None
      | Some (p, rest) \<Rightarrow>
          (case gauss (map (elim p) rest) of
             None \<Rightarrow> None
           | Some xs \<Rightarrow> Some ((snd p - dot (tl (fst p)) xs) / lead p # xs)))"
  by pat_completeness auto
termination
proof (relation "measure length")
  show "wf (measure length)" by simp
next
  fix r :: eqn and rs x2 and x y
  assume "find_pivot (r # rs) = Some x2" "(x, y) = x2"
  then have "Suc (length y) = length (r # rs)"
    using find_pivot_length [of "r # rs" x y] by simp
  then show "(map (elim x) y, r # rs) \<in> measure length" by simp
qed


definition is_square :: "mat \<Rightarrow> bool" where
  "is_square M = (\<forall>row\<in>set M. length row = length M)"

definition linalg_solve :: "singular_lu \<Rightarrow> mat \<Rightarrow> vec \<Rightarrow> error + vec" where
  "linalg_solve lu M v =
     (if \<not> is_square M then Inl LinAlgError
      else if length v \<noteq> length M then Inl ValueError
      else (case gauss (zip M v) of
              Some sol \<Rightarrow> Inr sol
            | None \<Rightarrow> (case lu M v of None \<Rightarrow> Inl LinAlgError | Some y \<Rightarrow> Inr y)))"

section \<open>Element formulas that read the potential vector (emc/components/Permeance.py)\<close>

definition Permeance_MMF :: "permeance \<Rightarrow> vec \<Rightarrow> error + real" where
  "Permeance_MMF self ports_v =
     (let m1 = n1 self - 1; m2 = n2 self - 1 in
      bind_err (if m1 \<ge> 0 then vec_get ports_v m1 else Inr 0) (\<lambda>u1.
      bind_err (if m2 \<ge> 0 then vec_get ports_v m2 else Inr 0) (\<lambda>u2.
      Inr (u1 - u2))))"

definition Permeance_H :: "permeance \<Rightarrow> vec \<Rightarrow> error + real" where
  "Permeance_H self ports_v =
     bind_err (Permeance_MMF self ports_v) (\<lambda>MMF.
     bind_err (fdiv MMF (l self)) (\<lambda>q. Inr (q * 1000)))"

definition MMFSource_MMF :: "source \<Rightarrow> real" where
  "MMFSource_MMF self = val self"

definition PHISource_PHI :: "source \<Rightarrow> real" where
  "PHISource_PHI self = val self"

section \<open>The solver (emc/analysis.py)\<close>

subsection \<open>update_mur\<close>

text \<open>
  The loop of \<open>update_mur\<close> visits the elements in order and rewrites \<open>mur\<close> and
  \<open>mur_d\<close> of every permeance that has a model label. A label that is not in the
  registry raises KeyError at \<open>circ.models[label]\<close>.
\<close>

fun update_mur_elem :: "real \<Rightarrow> (string \<rightharpoonup> bh_model) \<Rightarrow> vec \<Rightarrow> elem \<Rightarrow> error + elem" where
  "update_mur_elem mu0 mods x (Permeance p) =
     (case model_label p of
        None \<Rightarrow> Inr (Permeance p)
      | Some lbl \<Rightarrow>
          (case mods lbl of
             None \<Rightarrow> Inl KeyError
           | Some model \<Rightarrow>
               bind_err (Permeance_H p x) (\<lambda>h.
               let H = \<bar>h\<bar> in
               bind_err (bh_model_mur mu0 model H) (\<lambda>v.
               bind_err (bh_model_mur_d mu0 model H) (\<lambda>vd.
               Inr (Permeance (p\<lparr>mur := v, mur_d := vd\<rparr>)))))))"
| "update_mur_elem mu0 mods x e = Inr e"

fun update_mur_list :: "real \<Rightarrow> (string \<rightharpoonup> bh_model) \<Rightarrow> vec \<Rightarrow> elem list \<Rightarrow> error + elem list" where
  "update_mur_list mu0 mods x [] = Inr []"
| "update_mur_list mu0 mods x (e # es) =
     bind_err (update_mur_elem mu0 mods x e) (\<lambda>e'.
     bind_err (update_mur_list mu0 mods x es) (\<lambda>es'. Inr (e' # es')))"

definition update_mur :: "real \<Rightarrow> circuit \<Rightarrow> vec \<Rightarrow> error + circuit" where
  "update_mur mu0 circ x =
     bind_err (update_mur_list mu0 (models circ) x (elems circ)) (\<lambda>es. Inr (circ\<lparr>elems := es\<rparr>))"

subsection \<open>make_system_matrix\<close>

text \<open>
  The assembly state is the triple \<open>(A, dA, b)\<close>. \<open>stamp_P\<close> is one pair of statements
  \<open>A[i,j] = A[i,j] + s*elem.P(); dA[i,j] = dA[i,j] + s*elem.dP()\<close>, where \<open>s\<close> is
  \<open>1\<close> for the diagonal terms and \<open>-1\<close> for the two subtracted off-diagonal terms.
\<close>

type_synonym sys = "mat \<times> mat \<times> vec"

definition stamp_P :: "real \<Rightarrow> permeance \<Rightarrow> int \<Rightarrow> int \<Rightarrow> real \<Rightarrow> mat \<times> mat \<Rightarrow> error + mat \<times> mat" where
  "stamp_P mu0 p i j s AdA =
     (case AdA of (A, dA) \<Rightarrow>
      bind_err (mat_get A i j) (\<lambda>a.
      bind_err (Permeance_P mu0 p) (\<lambda>P.
      bind_err (mat_set A i j (a + s * P)) (\<lambda>A'.
      bind_err (mat_get dA i j) (\<lambda>da.
      bind_err (Permeance_dP mu0 p) (\<lambda>dP.
      bind_err (mat_set dA i j (da + s * dP)) (\<lambda>dA'.
      Inr (A', dA'))))))))"

definition stamp_const :: "int \<Rightarrow> int \<Rightarrow> real \<Rightarrow> mat \<times> mat \<Rightarrow> error + mat \<times> mat" where
  "stamp_const i j a AdA =
     (case AdA of (A, dA) \<Rightarrow>
      bind_err (mat_set A i j a) (\<lambda>A'.
      bind_err (mat_set dA i j a) (\<lambda>dA'.
      Inr (A', dA'))))"

definition vec_add_at :: "vec \<Rightarrow> int \<Rightarrow> real \<Rightarrow> error + vec" where
  "vec_add_at b i a = bind_err (vec_get b i) (\<lambda>b0. vec_set b i (b0 + a))"

fun stamp_elem :: "real \<Rightarrow> elem \<Rightarrow> sys \<Rightarrow> error + sys" where
  "stamp_elem mu0 (Permeance p) (A, dA, b) =
     (let m1 = n1 p - 1; m2 = n2 p - 1 in
      bind_err (if m1 \<ge> 0 then stamp_P mu0 p m1 m1 1 (A, dA) else Inr (A, dA)) (\<lambda>AdA.
      bind_err (if m2 \<ge> 0 then stamp_P mu0 p m2 m2 1 AdA else Inr AdA) (\<lambda>AdA.
      bind_err (if m1 \<ge> 0 \<and> m2 \<ge> 0
                then bind_err (stamp_P mu0 p m1 m2 (- 1) AdA) (stamp_P mu0 p m2 m1 (- 1))
                else Inr AdA) (\<lambda>AdA.
      Inr (fst AdA, snd AdA, b)))))"
| "stamp_elem mu0 (PHISource s) (A, dA, b) =
     (let m1 = n1 s - 1; m2 = n2 s - 1 in
      bind_err (if m1 \<ge> 0 then vec_add_at b m1 (PHISource_PHI s) else Inr b) (\<lambda>b.
      bind_err (if m2 \<ge> 0 then vec_add_at b m2 (- PHISource_PHI s) else Inr b) (\<lambda>b.
      Inr (A, dA, b))))"
| "stamp_elem mu0 (MMFSource s) (A, dA, b) = Inr (A, dA, b)"

fun stamp_elems :: "real \<Rightarrow> elem list \<Rightarrow> sys \<Rightarrow> error + sys" where
  "stamp_elems mu0 [] S = Inr S"
| "stamp_elems mu0 (e # es) S = bind_err (stamp_elem mu0 e S) (stamp_elems mu0 es)"

text \<open>
  The second loop gives every MMF source, in list order, the next auxiliary index,
  starting at \<open>get_nodes_number() - 1\<close>.
\<close>

definition stamp_mmf_elem :: "source \<Rightarrow> int \<Rightarrow> sys \<Rightarrow> error + sys" where
  "stamp_mmf_elem s index S =
     (case S of (A, dA, b) \<Rightarrow>
      let m1 = n1 s - 1; m2 = n2 s - 1 in
      bind_err (if m1 \<ge> 0 then stamp_const m1 index 1 (A, dA) else Inr (A, dA)) (\<lambda>AdA.
      bind_err (if m2 \<ge> 0 then stamp_const m2 index (- 1) AdA else Inr AdA) (\<lambda>AdA.
      bind_err (if m1 \<ge> 0 then stamp_const index m1 1 AdA else Inr AdA) (\<lambda>AdA.
      bind_err (if m2 \<ge> 0 then stamp_const index m2 (- 1) AdA else Inr AdA) (\<lambda>AdA.
      bind_err (vec_set b index (MMFSource_MMF s)) (\<lambda>b.
      Inr (fst AdA, snd AdA, b)))))))"

fun stamp_mmfs :: "elem list \<Rightarrow> int \<Rightarrow> sys \<Rightarrow> error + sys" where
  "stamp_mmfs [] index S = Inr S"
| "stamp_mmfs (MMFSource s # es) index S =
     bind_err (stamp_mmf_elem s index S) (stamp_mmfs es (index + 1))"
| "stamp_mmfs (e # es) index S = stamp_mmfs es index S"

text \<open>
  \<open>make_system_matrix\<close> returns \<open>(dA, b)\<close>; \<open>update_mur\<close> has mutated the elements, so
  the circuit is returned with them.
\<close>

definition make_system_matrix :: "real \<Rightarrow> circuit \<Rightarrow> vec \<Rightarrow> error + circuit \<times> mat \<times> vec" where
  "make_system_matrix mu0 circ u_prev =
     bind_err (update_mur mu0 circ u_prev) (\<lambda>circ.
     let n_size = length u_prev in
     bind_err (stamp_elems mu0 (elems circ) (zeros_mat n_size, zeros_mat n_size, zeros_vec n_size)) (\<lambda>S.
     bind_err (stamp_mmfs (elems circ) (get_nodes_number circ - 1) S) (\<lambda>S.
     case S of (A, dA, b) \<Rightarrow> Inr (circ, dA, vec_sub b (mat_vec A u_prev)))))"

subsection \<open>solve_circuit\<close>

text \<open>
  The local variables of \<open>solve_circuit\<close> that live across passes, with the circuit.
  \<open>dx\<close> and \<open>err\<close> are unbound before the first pass; every pass writes them before
  reading them. \<open>err / norm\<close> is a numpy division: with a zero \<open>norm\<close> it is nan or inf
  and raises nothing, which is \<open>None\<close> here, and \<open>err < 0.001\<close> is then false.
\<close>

record solver_state =
  st_circ :: circuit
  st_x :: vec
  st_norm :: real
  st_iter :: nat
  st_dx :: vec
  st_err :: "real option"

definition float_ratio :: "real \<Rightarrow> real \<Rightarrow> real option" where
  "float_ratio a b = (if b = 0 then None else Some (a / b))"

definition newton_pass :: "singular_lu \<Rightarrow> real \<Rightarrow> real \<Rightarrow> solver_state \<Rightarrow> error + solver_state" where
  "newton_pass lu mu0 gamma st =
     bind_err (make_system_matrix mu0 (st_circ st) (st_x st)) (\<lambda>(circ, A, b).
     bind_err (linalg_solve lu A b) (\<lambda>dx.
     let x = (if st_iter st = 0 then dx else vec_add (st_x st) (vec_scale gamma dx));
         err = linalg_norm dx;
         norm0 = (if st_iter st = 0 then err else st_norm st);
         err = float_ratio err norm0;
         norm1 = linalg_norm x
     in Inr (st\<lparr>st_circ := circ, st_x := x, st_norm := norm1, st_dx := dx, st_err := err\<rparr>)))"

definition stop :: "solver_state \<Rightarrow> bool" where
  "stop st = ((case st_err st of None \<Rightarrow> False | Some e \<Rightarrow> e < 1 / 1000) \<or> st_iter st > 2000)"

lemma newton_pass_iter: "newton_pass lu mu0 gamma st = Inr st' \<Longrightarrow> st_iter st' = st_iter st"
  by (auto simp add: newton_pass_def bind_err_def Let_def split: sum.splits prod.splits)

function newton_loop :: "singular_lu \<Rightarrow> real \<Rightarrow> real \<Rightarrow> solver_state \<Rightarrow> error + solver_state" where
  "newton_loop lu mu0 gamma st =
     (case newton_pass lu mu0 gamma st of
        Inl e \<Rightarrow> Inl e
      | Inr st' \<Rightarrow>
          if stop st' then Inr st'
          else newton_loop lu mu0 gamma (st'\<lparr>st_iter := st_iter st' + 1\<rparr>))"
  by pat_completeness auto
termination
proof (relation "measure (\<lambda>(lu, mu0, gamma, st). 2001 - st_iter st)")
  show "wf (measure (\<lambda>(lu, mu0, gamma, st). 2001 - st_iter st))" by simp
next
  fix lu :: singular_lu and mu0 gamma :: real and st st' :: solver_state
  assume "newton_pass lu mu0 gamma st = Inr st'" "\<not> stop st'"
  then have "st_iter st' = st_iter st" "st_iter st' \<le> 2000"
    by (simp_all add: newton_pass_iter stop_def)
  then show "((lu, mu0, gamma, st'\<lparr>st_iter := st_iter st' + 1\<rparr>), lu, mu0, gamma, st)
               \<in> measure (\<lambda>(lu, mu0, gamma, st). 2001 - st_iter st)"
    by simp
qed

declare newton_loop.simps [simp del]

definition solve_init :: "circuit \<Rightarrow> nat \<Rightarrow> solver_state" where
  "solve_init circ n_matrix_size =
     \<lparr>st_circ = circ, st_x = zeros_vec n_matrix_size, st_norm = 0, st_iter = 0,
      st_dx = [], st_err = None\<rparr>"

text \<open>
  \<open>np.zeros\<close> raises ValueError for a negative dimension. \<open>solve_state\<close> is the state at
  the \<open>break\<close>; \<open>solve_circuit\<close> returns its \<open>x\<close>.
\<close>

definition solve_state :: "singular_lu \<Rightarrow> real \<Rightarrow> circuit \<Rightarrow> real \<Rightarrow> error + solver_state" where
  "solve_state lu mu0 circ gamma =
     (let n_nodes = get_nodes_number circ;
          n_MMFs = get_MMFs_number circ;
          n_matrix_size = n_nodes + n_MMFs - 1
      in if n_matrix_size < 0 then Inl ValueError
         else newton_loop lu mu0 gamma (solve_init circ (nat n_matrix_size)))"

definition solve_circuit :: "singular_lu \<Rightarrow> real \<Rightarrow> circuit \<Rightarrow> real \<Rightarrow> error + vec" where
  "solve_circuit lu mu0 circ gamma = bind_err (solve_state lu mu0 circ gamma) (\<lambda>st. Inr (st_x st))"


section \<open>Predicates used in the statements\<close>

text \<open>
  Shapes: \<open>shaped n\<close> is a system of \<open>n\<close> equations in \<open>n\<close> unknowns, \<open>mat_shape n\<close> an
  \<open>(n,n)\<close> matrix, \<open>sys_shape n\<close> an assembly state of that size. A matrix is singular
  when a non-zero vector is mapped to zero.
\<close>

definition shaped :: "nat \<Rightarrow> eqn list \<Rightarrow> bool" where
  "shaped n rows = (length rows = n \<and> (\<forall>r\<in>set rows. length (fst r) = n))"

definition mat_shape :: "nat \<Rightarrow> mat \<Rightarrow> bool" where
  "mat_shape n M = (length M = n \<and> (\<forall>row\<in>set M. length row = n))"

definition sys_shape :: "nat \<Rightarrow> sys \<Rightarrow> bool" where
  "sys_shape n S = (case S of (A, dA, b) \<Rightarrow> mat_shape n A \<and> mat_shape n dA \<and> length b = n)"

definition singular :: "mat \<Rightarrow> bool" where
  "singular M = (\<exists>v. length v = length M \<and> v \<noteq> zeros_vec (length M)
                      \<and> mat_vec M v = zeros_vec (length M))"

text \<open>
  A linear element: a source, or a permeance without model label whose \<open>mur_d\<close> is
  \<open>mur\<close>, as the constructor of \<open>Permeance\<close> leaves it. \<open>same_mats\<close>: the two
  matrices of an assembly state are equal.
\<close>

fun linear_elem :: "elem \<Rightarrow> bool" where
  "linear_elem (Permeance p) = (model_label p = None \<and> mur_d p = mur p)"
| "linear_elem e = True"

definition same_mats :: "sys \<Rightarrow> bool" where
  "same_mats S = (fst S = fst (snd S))"

text \<open>
  The operating point as the specification words it, \<open>H = |MMF(x)|/l\<close>, and the update
  of a bound permeance with that value: \<open>spec_H\<close> and \<open>spec_update_mur_elem\<close> follow
  the specification, not the code. \<open>terminal_potential\<close> is the potential of a terminal
  (0 for ground), and \<open>refreshed\<close> relates an element before and after \<open>update_mur\<close>.
\<close>

definition spec_H :: "permeance \<Rightarrow> vec \<Rightarrow> error + real" where
  "spec_H p x = bind_err (Permeance_MMF p x) (\<lambda>MMF. fdiv \<bar>MMF\<bar> (l p))"

definition spec_update_mur_elem ::
  "real \<Rightarrow> (string \<rightharpoonup> bh_model) \<Rightarrow> vec \<Rightarrow> permeance \<Rightarrow> bh_model \<Rightarrow> error + elem" where
  "spec_update_mur_elem mu0 mods x p model =
     bind_err (spec_H p x) (\<lambda>H.
     bind_err (bh_model_mur mu0 model H) (\<lambda>v.
     bind_err (bh_model_mur_d mu0 model H) (\<lambda>vd.
     Inr (Permeance (p\<lparr>mur := v, mur_d := vd\<rparr>)))))"

definition terminal_potential :: "vec \<Rightarrow> int \<Rightarrow> real" where
  "terminal_potential x n = (if n - 1 \<ge> 0 then x ! nat (n - 1) else 0)"

fun refreshed :: "real \<Rightarrow> (string \<rightharpoonup> bh_model) \<Rightarrow> vec \<Rightarrow> elem \<Rightarrow> elem \<Rightarrow> bool" where
  "refreshed mu0 mods x (Permeance p) e' =
     (case model_label p of
        None \<Rightarrow> e' = Permeance p
      | Some lbl \<Rightarrow>
          (\<exists>model v vd. mods lbl = Some model \<and> l p \<noteq> 0
             \<and> bh_model_mur mu0 model
                  \<bar>(terminal_potential x (n1 p) - terminal_potential x (n2 p)) / l p * 1000\<bar> = Inr v
             \<and> bh_model_mur_d mu0 model
                  \<bar>(terminal_potential x (n1 p) - terminal_potential x (n2 p)) / l p * 1000\<bar> = Inr vd
             \<and> e' = Permeance (p\<lparr>mur := v, mur_d := vd\<rparr>)))"
| "refreshed mu0 mods x e e' = (e' = e)"

text \<open>
  \<open>n_matrix_size\<close> is the local variable of that name in \<open>solve_circuit\<close>.
  \<open>non_ground_nodes\<close> counts the registered node names other than \<open>'0'\<close>, and
  \<open>mmf_values\<close> lists the values of the MMF sources in element order. \<open>built\<close> are
  the circuits reached from the empty circuit with the construction methods, and
  \<open>nodes_ok\<close> is the invariant of their node dictionary: distinct keys, and the integer
  keys are \<open>1..k\<close> for \<open>k\<close> non-ground names, with 0 when ground is registered.
\<close>

definition n_matrix_size :: "circuit \<Rightarrow> int" where
  "n_matrix_size c = get_nodes_number c + get_MMFs_number c - 1"

definition non_ground :: "nodes_dict \<Rightarrow> nat" where
  "non_ground dict = length (filter (\<lambda>nm. nm \<noteq> ''0'') (map fst (snd dict)))"

definition non_ground_nodes :: "circuit \<Rightarrow> nat" where
  "non_ground_nodes c = non_ground (nodes_dict c)"

fun mmf_values :: "elem list \<Rightarrow> real list" where
  "mmf_values [] = []"
| "mmf_values (MMFSource s # es) = MMFSource_MMF s # mmf_values es"
| "mmf_values (e # es) = mmf_values es"

inductive built :: "circuit \<Rightarrow> bool" where
  built_init: "built Circuit_init"
| built_add_model: "built c \<Longrightarrow> built (snd (add_model t lbl m c))"
| built_remove_model: "built c \<Longrightarrow> built (remove_model lbl c)"
| built_create_node: "built c \<Longrightarrow> built (snd (create_node nm c))"
| built_add_node: "built c \<Longrightarrow> built (snd (add_node nm c))"
| built_add_permeance: "built c \<Longrightarrow> built (snd (add_permeance pid a b mur0 w0 d0 l0 lbl c))"
| built_add_mmf_source: "built c \<Longrightarrow> built (add_mmf_source pid a b v c)"
| built_add_phi_source: "built c \<Longrightarrow> built (add_phi_source pid a b v c)"

definition nodes_ok :: "nodes_dict \<Rightarrow> bool" where
  "nodes_ok dict =
     (distinct (map fst (fst dict)) \<and> distinct (map fst (snd dict))
      \<and> fst ` set (fst dict) =
          (if has_name dict ''0'' then {0 .. int (non_ground dict)}
           else {1 .. int (non_ground dict)}))"

section \<open>Example circuits\<close>

text \<open>
  Circuits built with the construction methods, used as concrete inputs below.
  \<open>quad_model\<close> is a material with \<open>B(H) = H - H^2/100\<close> and \<open>u(H) = B(H)/H\<close>;
  \<open>nl_circuit\<close> drives one permeance of that material with a flux source, and
  \<open>nl_state0\<close>, \<open>nl_state1\<close>, \<open>nl_state2\<close> are the solver states after its first three
  passes with \<open>mu0 = 1/800000\<close> and \<open>gamma = 1\<close>.
  \<open>series_circuit\<close> is the circuit of main.py with both permeances linear,
  \<open>floating_circuit\<close> has a permeance connected to nothing else, and \<open>open_circuit\<close> a
  flux source alone.
\<close>

definition quad_model :: bh_model where
  "quad_model = \<lparr>name = ''quad'', hb = (\<lambda>H. H - H * H / 100), hu = (\<lambda>H. 1 - H / 100)\<rparr>"

definition nl_circuit :: circuit where
  "nl_circuit =
     (let c = snd (add_model ''BH'' ''quad'' quad_model Circuit_init);
          c = add_phi_source ''PHI1'' ''n1'' ''0'' (99 / 50) c;
          c = snd (add_permeance ''Rc'' ''n1'' ''0'' 1 1000 1000 1000 (Some ''quad'') c)
      in c)"

definition nl_state0 :: solver_state where
  "nl_state0 =
     \<lparr>st_circ =
      \<lparr>elems = [PHISource \<lparr>part_id = ''PHI1'', n1 = 1, n2 = 0, val = 99 / 50\<rparr>,
        Permeance \<lparr>part_id = ''Rc'', n1 = 1, n2 = 0, mur = 792000, mur_d = 792000,
          w = 1000, d = 1000, l = 1000, model_label = Some ''quad''\<rparr>],
      nodes_dict = ([(1, ''n1''), (0, ''0'')], [(''n1'', 1), (''0'', 0)]),
      models = [''quad'' \<mapsto> quad_model]\<rparr>,
      st_x = [2], st_norm = 2, st_iter = 0, st_dx = [2], st_err = Some (1)\<rparr>"

definition nl_state1 :: solver_state where
  "nl_state1 =
     \<lparr>st_circ =
      \<lparr>elems = [PHISource \<lparr>part_id = ''PHI1'', n1 = 1, n2 = 0, val = 99 / 50\<rparr>,
        Permeance \<lparr>part_id = ''Rc'', n1 = 1, n2 = 0, mur = 784000, mur_d = 768000,
          w = 1000, d = 1000, l = 1000, model_label = Some ''quad''\<rparr>],
      nodes_dict = ([(1, ''n1''), (0, ''0'')], [(''n1'', 1), (''0'', 0)]),
      models = [''quad'' \<mapsto> quad_model]\<rparr>,
      st_x = [97 / 48], st_norm = 97 / 48, st_iter = 1, st_dx = [1 / 48], st_err = Some (1 / 96)\<rparr>"

definition nl_state2 :: solver_state where
  "nl_state2 =
     \<lparr>st_circ =
      \<lparr>elems = [PHISource \<lparr>part_id = ''PHI1'', n1 = 1, n2 = 0, val = 99 / 50\<rparr>,
        Permeance \<lparr>part_id = ''Rc'', n1 = 1, n2 = 0, mur = 2351500 / 3, mur_d = 2303000 / 3,
          w = 1000, d = 1000, l = 1000, model_label = Some ''quad''\<rparr>],
      nodes_dict = ([(1, ''n1''), (0, ''0'')], [(''n1'', 1), (''0'', 0)]),
      models = [''quad'' \<mapsto> quad_model]\<rparr>,
      st_x = [446783 / 221088], st_norm = 446783 / 221088, st_iter = 2, st_dx = [1 / 221088], st_err = Some (1 / 446782)\<rparr>"

definition series_circuit :: circuit where
  "series_circuit =
     (let c = add_mmf_source ''MMF1'' ''n1'' ''0'' 10000 Circuit_init;
          c = snd (add_permeance ''Rc'' ''n1'' ''n2'' 3000 10 10 120 None c);
          c = snd (add_permeance ''Rg'' ''n2'' ''0'' 1 10 10 1 None c)
      in c)"

definition floating_circuit :: circuit where
  "floating_circuit =
     (let c = add_mmf_source ''MMF1'' ''n1'' ''0'' 10000 Circuit_init;
          c = snd (add_permeance ''Rx'' ''a'' ''b'' 1 10 10 1 None c)
      in c)"


text \<open>\<open>groundless_circuit\<close>: one MMF source between two nodes, no ground node.\<close>

definition groundless_circuit :: circuit where
  "groundless_circuit = add_mmf_source ''MMF1'' ''a'' ''b'' 5 Circuit_init"

text \<open>
  \<open>zero_pivot\<close> is the factorisation that meets a zero pivot on every singular matrix,
  as exact arithmetic does. \<open>idle_circuit\<close> is \<open>series_circuit\<close> with the MMF value 0,
  and \<open>zero_state c n k\<close> the solver state with a zero iterate of size \<open>n\<close> in pass
  \<open>k\<close>, after a pass that found \<open>dx = 0\<close>.
\<close>

definition zero_pivot :: singular_lu where
  "zero_pivot M v = None"

definition idle_circuit :: circuit where
  "idle_circuit =
     (let c = add_mmf_source ''MMF1'' ''n1'' ''0'' 0 Circuit_init;
          c = snd (add_permeance ''Rc'' ''n1'' ''n2'' 3000 10 10 120 None c);
          c = snd (add_permeance ''Rg'' ''n2'' ''0'' 1 10 10 1 None c)
      in c)"

definition zero_state :: "circuit \<Rightarrow> nat \<Rightarrow> nat \<Rightarrow> solver_state" where
  "zero_state c n k =
     \<lparr>st_circ = c, st_x = zeros_vec n, st_norm = 0, st_iter = k, st_dx = zeros_vec n,
      st_err = None\<rparr>"



section \<open>Properties of the material model and of the permeance formulas\<close>

lemma fdiv_nonzero: "b \<noteq> 0 \<Longrightarrow> fdiv a b = Inr (a / b)"
  by (simp add: fdiv_def)

lemma bind_err_Inr: "bind_err (Inr v) f = f v"
  by (simp add: bind_err_def)


text \<open>
  C6: for a permeance with non-zero path length, \<open>P()\<close> is \<open>mu0*mur*w*d/l*1e-3\<close> and
  \<open>dP()\<close> is the same formula with \<open>mur_d\<close>; scaling \<open>w\<close>, \<open>d\<close> or \<open>mur\<close>
  (\<open>mur_d\<close> for \<open>dP\<close>) by \<open>k\<close> scales the result by \<open>k\<close>, and scaling \<open>l\<close> by a
  non-zero \<open>k\<close> divides it by \<open>k\<close>.
\<close>

theorem Permeance_P_formula_and_scaling:
  assumes "l p \<noteq> 0" and "k \<noteq> 0"
  shows "Permeance_P mu0 p = Inr (mu0 * mur p * w p * d p / l p * (1 / 1000))
       \<and> Permeance_dP mu0 p = Inr (mu0 * mur_d p * w p * d p / l p * (1 / 1000))
       \<and> Permeance_P mu0 (p\<lparr>w := k * w p\<rparr>) = Inr (k * (mu0 * mur p * w p * d p / l p * (1 / 1000)))
       \<and> Permeance_P mu0 (p\<lparr>d := k * d p\<rparr>) = Inr (k * (mu0 * mur p * w p * d p / l p * (1 / 1000)))
       \<and> Permeance_P mu0 (p\<lparr>mur := k * mur p\<rparr>) = Inr (k * (mu0 * mur p * w p * d p / l p * (1 / 1000)))
       \<and> Permeance_P mu0 (p\<lparr>l := k * l p\<rparr>) = Inr ((mu0 * mur p * w p * d p / l p * (1 / 1000)) / k)
       \<and> Permeance_dP mu0 (p\<lparr>w := k * w p\<rparr>) = Inr (k * (mu0 * mur_d p * w p * d p / l p * (1 / 1000)))
       \<and> Permeance_dP mu0 (p\<lparr>d := k * d p\<rparr>) = Inr (k * (mu0 * mur_d p * w p * d p / l p * (1 / 1000)))
       \<and> Permeance_dP mu0 (p\<lparr>mur_d := k * mur_d p\<rparr>) = Inr (k * (mu0 * mur_d p * w p * d p / l p * (1 / 1000)))
       \<and> Permeance_dP mu0 (p\<lparr>l := k * l p\<rparr>) = Inr ((mu0 * mur_d p * w p * d p / l p * (1 / 1000)) / k)"
  using assms by (simp add: Permeance_P_def Permeance_dP_def fdiv_def bind_err_def)

theorem Permeance_P_formula_and_scaling_witness:
  "Permeance_P 1 (Permeance_init ''Rg'' 2 0 1 10 10 1 None) = Inr (1 / 10)
   \<and> Permeance_P 1 ((Permeance_init ''Rg'' 2 0 1 10 10 1 None)\<lparr>l := 2\<rparr>) = Inr (1 / 20)"
  using Permeance_P_formula_and_scaling [of "Permeance_init ''Rg'' 2 0 1 10 10 1 None" 2 1]
  by (simp add: Permeance_init_def)

text \<open>
  C7: with a non-zero \<open>mu0\<close>, \<open>mur\<close> raises nothing; for \<open>H \<le> 0\<close> it is the value at
  the unit field, \<open>hb(1)/mu0\<close>, and for \<open>H > 0\<close> it is \<open>hb(H)/H/mu0\<close>.
\<close>

theorem bh_model_mur_cases:
  assumes "mu0 \<noteq> 0"
  shows "(H \<le> 0 \<longrightarrow> bh_model_mur mu0 m H = Inr (hb m 1 / mu0))
       \<and> (H > 0 \<longrightarrow> bh_model_mur mu0 m H = Inr (hb m H / H / mu0))"
  using assms by (simp add: bh_model_mur_def fdiv_def bind_err_def)

theorem bh_model_mur_cases_witness:
  "bh_model_mur 2 \<lparr>name = ''m'', hb = (\<lambda>H. 6 * H), hu = (\<lambda>H. 6)\<rparr> 0 = Inr 3
   \<and> bh_model_mur 2 \<lparr>name = ''m'', hb = (\<lambda>H. 6 * H + 4), hu = (\<lambda>H. 6)\<rparr> 4 = Inr (7 / 2)"
  using bh_model_mur_cases [of 2 0 "\<lparr>name = ''m'', hb = (\<lambda>H. 6 * H), hu = (\<lambda>H. 6)\<rparr>"]
        bh_model_mur_cases [of 2 4 "\<lparr>name = ''m'', hb = (\<lambda>H. 6 * H + 4), hu = (\<lambda>H. 6)\<rparr>"]
  by simp

text \<open>
  C8: with a non-zero \<open>mu0\<close>, \<open>mur_d(H)\<close> is \<open>mur(H) + H * (du/dH)/mu0\<close>, where
  \<open>du/dH\<close> is the forward difference \<open>(hu(H + 1e-3) - hu(H))/1e-3\<close>.
\<close>

theorem bh_model_mur_d_formula:
  assumes "mu0 \<noteq> 0"
  shows "\<exists>v. bh_model_mur mu0 m H = Inr v
       \<and> bh_model_mur_d mu0 m H
           = Inr (v + H * ((hu m (H + 1 / 1000) - hu m H) / (1 / 1000)) / mu0)"
  using assms
  by (simp add: bh_model_mur_d_def bh_model_mur_def dmu_dH_def fp_def fdiv_def bind_err_def)

theorem bh_model_mur_d_formula_witness:
  "bh_model_mur_d 2 \<lparr>name = ''m'', hb = (\<lambda>H. 6 * H), hu = (\<lambda>H. 4 * H)\<rparr> 3 = Inr 9"
  using bh_model_mur_d_formula [of 2 "\<lparr>name = ''m'', hb = (\<lambda>H. 6 * H), hu = (\<lambda>H. 4 * H)\<rparr>" 3]
  by (simp add: bh_model_mur_def fdiv_def bind_err_def)

section \<open>Properties of circuit construction\<close>

lemma create_node_existing:
  "has_name (nodes_dict c) nm \<Longrightarrow> create_node nm c = (Inl ValueError, c)"
  by (simp add: create_node_def)

text \<open>
  C4: \<open>create_node\<close> raises ValueError for every name that is already registered, the
  ground name included: the second \<open>create_node('0')\<close> on a fresh circuit raises, although
  the docstring of \<open>create_node\<close> promises that it does not.
\<close>

theorem create_node_ground_twice_raises:
  "fst (create_node ''0'' (snd (create_node ''0'' Circuit_init))) = Inl ValueError"
  by (simp add: create_node_def Circuit_init_def has_name_def has_int_def register_def)

lemma has_name_register:
  "has_name (register i nm dict) k = (k = nm \<or> has_name dict k)"
  by (auto simp add: has_name_def register_def update_conv')

lemma add_node_nodes_dict:
  "nodes_dict (snd (add_node nm c)) =
     (if has_name (nodes_dict c) nm then nodes_dict c
      else register (if nm = ''0'' then 0 else new_int_node (nodes_dict c) (has_int (nodes_dict c) 0)) nm (nodes_dict c))"
  by (simp add: add_node_def Let_def has_name_def split: option.splits)

lemma add_node_has_name:
  "has_name (nodes_dict (snd (add_node nm c))) k = (k = nm \<or> has_name (nodes_dict c) k)"
  by (auto simp add: add_node_nodes_dict has_name_register)

lemma add_node_elems: "elems (snd (add_node nm c)) = elems c"
  by (simp add: add_node_def Let_def split: option.splits)

lemma add_node_models: "models (snd (add_node nm c)) = models c"
  by (simp add: add_node_def Let_def split: option.splits)

lemma add_permeance_unfold:
  "add_permeance pid a b mur0 w0 d0 l0 lbl c =
     (let c2 = snd (add_node b (snd (add_node a c))) in
      if w0 = 0 \<or> d0 = 0 \<or> l0 = 0 then (Inl CircuitError, c2)
      else if lbl \<noteq> None \<and> the lbl \<notin> dom (models c) then (Inl ModelError, c2)
      else (Inr (), c2\<lparr>elems := elems c @ [Permeance (Permeance_init pid
              (fst (add_node a c)) (fst (add_node b (snd (add_node a c)))) mur0 w0 d0 l0 lbl)]\<rparr>))"
proof -
  obtain i1 c1 where h1: "add_node a c = (i1, c1)" by (cases "add_node a c")
  obtain i2 c2 where h2: "add_node b c1 = (i2, c2)" by (cases "add_node b c1")
  have m: "models c2 = models c" and e: "elems c2 = elems c"
    using add_node_models [of b c1] add_node_models [of a c]
          add_node_elems [of b c1] add_node_elems [of a c] h1 h2 by simp_all
  show ?thesis
    by (simp add: add_permeance_def h1 h2 m e)
qed

text \<open>
  C10: \<open>add_permeance\<close> raises exactly when \<open>w\<close>, \<open>d\<close> or \<open>l\<close> is zero or the model
  label is given and not in the registry; when it raises, the circuit it leaves is the one
  after the two \<open>add_node\<close> calls, so both node names are registered, and no element
  was appended.
\<close>

theorem add_permeance_not_atomic:
  assumes "add_permeance pid a b mur0 w0 d0 l0 lbl c = (r, c')"
  shows "((\<exists>e. r = Inl e) \<longleftrightarrow>
            (w0 = 0 \<or> d0 = 0 \<or> l0 = 0 \<or> (\<exists>s. lbl = Some s \<and> s \<notin> dom (models c))))
       \<and> ((\<exists>e. r = Inl e) \<longrightarrow>
            c' = snd (add_node b (snd (add_node a c)))
            \<and> has_name (nodes_dict c') a \<and> has_name (nodes_dict c') b
            \<and> elems c' = elems c)"
  using assms unfolding add_permeance_unfold Let_def
  by (auto simp add: add_node_has_name add_node_elems split: if_splits)

theorem add_permeance_not_atomic_witness:
  "add_permeance ''Rc'' ''n1'' ''n2'' 3000 10 10 0 None Circuit_init
     = (Inl CircuitError, \<lparr>elems = [], nodes_dict = ([(1, ''n1''), (2, ''n2'')], [(''n1'', 1), (''n2'', 2)]), models = Map.empty\<rparr>)"
  using add_permeance_not_atomic [of "''Rc''" "''n1''" "''n2''" 3000 10 10 0 None Circuit_init
           "Inl CircuitError" "snd (add_permeance ''Rc'' ''n1'' ''n2'' 3000 10 10 0 None Circuit_init)"]
  by (simp add: add_permeance_unfold add_node_def Circuit_init_def register_def new_int_node_def len_def has_int_def Let_def)


section \<open>Properties of the linear solver\<close>

lemma find_pivot_Some:
  "find_pivot rows = Some (p, rest) \<Longrightarrow> lead p \<noteq> 0 \<and> set rows = insert p (set rest)"
  by (induction rows arbitrary: p rest) (auto split: if_splits option.splits)

lemma find_pivot_None:
  "find_pivot rows = None \<Longrightarrow> r \<in> set rows \<Longrightarrow> lead r = 0"
  by (induction rows) (auto split: if_splits option.splits)

lemma dot_replicate_zero: "dot u (replicate n 0) = 0"
proof (induction u arbitrary: n)
  case Nil then show ?case by simp
next
  case (Cons a u) then show ?case by (cases n) simp_all
qed

lemma dot_map2_sub:
  "length a = length b \<Longrightarrow> length b = length xs \<Longrightarrow>
     dot (map2 (\<lambda>u v. u - f * v) a b) xs = dot a xs - f * dot b xs"
proof (induction a b xs rule: list_induct3)
  case Nil then show ?case by simp
next
  case (Cons x xs y ys z zs) then show ?case by (simp add: algebra_simps)
qed

lemma shaped_elim:
  assumes "shaped (Suc n) rows" "find_pivot rows = Some (p, rest)"
  shows "shaped n (map (elim p) rest)"
  using assms find_pivot_length [of rows p rest] find_pivot_Some [of rows p rest]
  by (auto simp add: shaped_def elim_def)

lemma dot_elim:
  assumes "length (fst p) = Suc n" "length (fst q) = Suc n" "length xs = n"
  shows "dot (fst (elim p q)) xs = dot (tl (fst q)) xs - lead q / lead p * dot (tl (fst p)) xs"
proof -
  have "length (tl (fst q)) = length (tl (fst p))" "length (tl (fst p)) = length xs"
    using assms by simp_all
  from dot_map2_sub [OF this, of "lead q / lead p"] show ?thesis
    by (simp add: elim_def Let_def)
qed

lemma dot_lead:
  assumes "length (fst q) = Suc n"
  shows "dot (fst q) (x0 # xs) = lead q * x0 + dot (tl (fst q)) xs"
  using assms by (cases "fst q") (simp_all add: lead_def)

lemma gauss_sound:
  "shaped (length rows) rows \<Longrightarrow> gauss rows = Some xs \<Longrightarrow>
     length xs = length rows \<and> (\<forall>r\<in>set rows. dot (fst r) xs = snd r)"
proof (induction rows arbitrary: xs rule: gauss.induct)
  case 1
  then show ?case by simp
next
  case (2 r rs)
  from "2.prems"(2) obtain p rest ys where
    piv: "find_pivot (r # rs) = Some (p, rest)" and
    rec: "gauss (map (elim p) rest) = Some ys" and
    xs: "xs = (snd p - dot (tl (fst p)) ys) / lead p # ys"
    by (auto split: option.splits)
  have len: "length rest = length rs" using find_pivot_length [OF piv] by simp
  have sh: "shaped (length (map (elim p) rest)) (map (elim p) rest)"
    using shaped_elim [of "length rs" "r # rs" p rest] "2.prems"(1) piv len by simp
  from "2.IH" [OF piv refl sh rec]
  have ih: "length ys = length rest" "\<forall>q\<in>set rest. dot (fst (elim p q)) ys = snd (elim p q)"
    by simp_all
  have lp: "lead p \<noteq> 0" and mem: "set (r # rs) = insert p (set rest)"
    using find_pivot_Some [OF piv] by simp_all
  have lens: "\<forall>q\<in>set (r # rs). length (fst q) = Suc (length rs)"
    using "2.prems"(1) by (simp add: shaped_def)
  have lenp: "length (fst p) = Suc (length rs)" using lens mem by auto
  have hp: "dot (fst p) xs = snd p"
    using lp by (simp add: xs dot_lead [OF lenp])
  have hq: "dot (fst q) xs = snd q" if "q \<in> set rest" for q
  proof -
    have lq: "length (fst q) = Suc (length rs)" using lens mem that by auto
    have "dot (fst (elim p q)) ys = snd (elim p q)" using ih(2) that by simp
    then have "dot (tl (fst q)) ys - lead q / lead p * dot (tl (fst p)) ys
                = snd q - lead q / lead p * snd p"
      using dot_elim [OF lenp lq, of ys] ih(1) len by (simp add: elim_def Let_def)
    then show ?thesis
      using lp by (simp add: xs dot_lead [OF lq] field_simps)
  qed
  show ?case
    using hp hq mem ih(1) len by (auto simp add: xs)
qed

lemma gauss_unique:
  "shaped (length rows) rows \<Longrightarrow> gauss rows = Some xs \<Longrightarrow> length ys = length rows \<Longrightarrow>
     \<forall>r\<in>set rows. dot (fst r) ys = snd r \<Longrightarrow> ys = xs"
proof (induction rows arbitrary: xs ys rule: gauss.induct)
  case 1
  then show ?case by simp
next
  case (2 r rs)
  from "2.prems"(2) obtain p rest zs where
    piv: "find_pivot (r # rs) = Some (p, rest)" and
    rec: "gauss (map (elim p) rest) = Some zs" and
    xs: "xs = (snd p - dot (tl (fst p)) zs) / lead p # zs"
    by (auto split: option.splits)
  have len: "length rest = length rs" using find_pivot_length [OF piv] by simp
  have sh: "shaped (length (map (elim p) rest)) (map (elim p) rest)"
    using shaped_elim [of "length rs" "r # rs" p rest] "2.prems"(1) piv len by simp
  have lp: "lead p \<noteq> 0" and mem: "set (r # rs) = insert p (set rest)"
    using find_pivot_Some [OF piv] by simp_all
  have lens: "\<forall>q\<in>set (r # rs). length (fst q) = Suc (length rs)"
    using "2.prems"(1) by (simp add: shaped_def)
  have lenp: "length (fst p) = Suc (length rs)" using lens mem by auto
  obtain y0 ys' where ys: "ys = y0 # ys'" and lys: "length ys' = length rs"
    using "2.prems"(3) by (cases ys) simp_all
  have pin: "p \<in> set (r # rs)" using mem by auto
  have eqp: "lead p * y0 + dot (tl (fst p)) ys' = snd p"
    using "2.prems"(4) pin dot_lead [OF lenp, of y0 ys'] ys by auto
  have red: "\<forall>q\<in>set (map (elim p) rest). dot (fst q) ys' = snd q"
  proof
    fix e assume "e \<in> set (map (elim p) rest)"
    then obtain q where q: "q \<in> set rest" and e: "e = elim p q" by auto
    have lq: "length (fst q) = Suc (length rs)" using lens mem q by auto
    have qin: "q \<in> set (r # rs)" using mem q by auto
    have eqq: "lead q * y0 + dot (tl (fst q)) ys' = snd q"
      using "2.prems"(4) qin dot_lead [OF lq, of y0 ys'] ys by auto
    have "dot (fst (elim p q)) ys' = dot (tl (fst q)) ys' - lead q / lead p * dot (tl (fst p)) ys'"
      using dot_elim [OF lenp lq lys] .
    also have "\<dots> = snd q - lead q / lead p * snd p"
      unfolding eqp [symmetric] eqq [symmetric] using lp by (simp add: field_simps)
    finally show "dot (fst e) ys' = snd e" by (simp add: e elim_def Let_def)
  qed
  have "ys' = zs"
    using "2.IH" [OF piv refl sh rec _ red] lys len by simp
  moreover have "y0 = (snd p - dot (tl (fst p)) ys') / lead p"
    using eqp lp by (simp add: field_simps)
  ultimately show ?case by (simp add: xs ys)
qed

lemma gauss_singular:
  "shaped (length rows) rows \<Longrightarrow> gauss rows = None \<Longrightarrow>
     \<exists>v. length v = length rows \<and> v \<noteq> replicate (length rows) 0
          \<and> (\<forall>r\<in>set rows. dot (fst r) v = 0)"
proof (induction rows rule: gauss.induct)
  case 1
  then show ?case by simp
next
  case (2 r rs)
  have lens: "\<forall>q\<in>set (r # rs). length (fst q) = Suc (length rs)"
    using "2.prems"(1) by (simp add: shaped_def)
  show ?case
  proof (cases "find_pivot (r # rs)")
    case None
    let ?v = "1 # replicate (length rs) (0::real)"
    have "dot (fst q) ?v = 0" if "q \<in> set (r # rs)" for q
    proof -
      have lq: "length (fst q) = Suc (length rs)" using lens that by auto
      show ?thesis
        using find_pivot_None [OF None that] by (simp add: dot_lead [OF lq] dot_replicate_zero)
    qed
    then show ?thesis
      by (intro exI [of _ ?v]) simp
  next
    case (Some pr)
    obtain p rest where pr: "pr = (p, rest)" by (cases pr)
    have piv: "find_pivot (r # rs) = Some (p, rest)" using Some pr by simp
    have rec: "gauss (map (elim p) rest) = None"
      using "2.prems"(2) piv by (auto split: option.splits)
    have len: "length rest = length rs" using find_pivot_length [OF piv] by simp
    have sh: "shaped (length (map (elim p) rest)) (map (elim p) rest)"
      using shaped_elim [of "length rs" "r # rs" p rest] "2.prems"(1) piv len by simp
    have lp: "lead p \<noteq> 0" and mem: "set (r # rs) = insert p (set rest)"
      using find_pivot_Some [OF piv] by simp_all
    have lenp: "length (fst p) = Suc (length rs)" using lens mem by auto
    from "2.IH" [OF piv refl sh rec] obtain v where
      lv: "length v = length rs" and nz: "v \<noteq> replicate (length rs) 0" and
      ker: "\<forall>q\<in>set rest. dot (fst (elim p q)) v = 0"
      using len by auto
    let ?v0 = "- dot (tl (fst p)) v / lead p"
    have hp: "dot (fst p) (?v0 # v) = 0"
      using lp by (simp add: dot_lead [OF lenp])
    have hq: "dot (fst q) (?v0 # v) = 0" if "q \<in> set rest" for q
    proof -
      have lq: "length (fst q) = Suc (length rs)" using lens mem that by auto
      have "dot (tl (fst q)) v - lead q / lead p * dot (tl (fst p)) v = 0"
        using ker that dot_elim [OF lenp lq lv] by simp
      then show ?thesis
        using lp by (simp add: dot_lead [OF lq] field_simps)
    qed
    show ?thesis
      using hp hq mem lv nz by (intro exI [of _ "?v0 # v"]) auto
  qed
qed

section \<open>Shapes of the assembled system\<close>

lemma bind_err_eq_Inr:
  "bind_err m f = Inr r \<longleftrightarrow> (\<exists>v. m = Inr v \<and> f v = Inr r)"
  by (cases m) (simp_all add: bind_err_def)

lemma py_index_Inr: "py_index n i = Inr j \<Longrightarrow> j < n"
  by (auto simp add: py_index_def Let_def split: if_splits)

lemma mat_shape_zeros: "mat_shape n (zeros_mat n)"
  by (simp add: mat_shape_def zeros_mat_def)

lemma mat_set_shape:
  assumes "mat_set M i j a = Inr M'" "mat_shape n M"
  shows "mat_shape n M'"
proof -
  from assms(1) obtain r c where r: "py_index (length M) i = Inr r"
    and M': "M' = M[r := (M ! r)[c := a]]"
    by (auto simp add: mat_set_def bind_err_eq_Inr)
  have "r < length M" using py_index_Inr [OF r] .
  then have "length ((M ! r)[c := a]) = n" using assms(2) by (simp add: mat_shape_def)
  then show ?thesis
    using assms(2) unfolding M' mat_shape_def
    by (auto dest: set_update_subset_insert [THEN subsetD])
qed

lemma vec_set_length: "vec_set v i a = Inr v' \<Longrightarrow> length v' = length v"
  by (auto simp add: vec_set_def bind_err_eq_Inr)

lemma vec_add_at_length:
  assumes "vec_add_at v i a = Inr v'"
  shows "length v' = length v"
proof -
  from assms obtain b0 where "vec_set v i (b0 + a) = Inr v'"
    unfolding vec_add_at_def bind_err_eq_Inr by blast
  then show ?thesis by (rule vec_set_length)
qed

lemma stamp_P_shape:
  assumes "stamp_P mu0 p i j s AdA = Inr AdA'" "mat_shape n (fst AdA) \<and> mat_shape n (snd AdA)"
  shows "mat_shape n (fst AdA') \<and> mat_shape n (snd AdA')"
proof -
  obtain A dA where AdA: "AdA = (A, dA)" by (cases AdA)
  from assms(1) obtain a1 a2 A' dA' where
    "mat_set A i j a1 = Inr A'" "mat_set dA i j a2 = Inr dA'" "AdA' = (A', dA')"
    unfolding AdA stamp_P_def prod.case bind_err_eq_Inr by blast
  then show ?thesis
    using assms(2) mat_set_shape [of A i j a1 A' n] mat_set_shape [of dA i j a2 dA' n]
    by (simp add: AdA)
qed

lemma stamp_const_shape:
  assumes "stamp_const i j a AdA = Inr AdA'" "mat_shape n (fst AdA) \<and> mat_shape n (snd AdA)"
  shows "mat_shape n (fst AdA') \<and> mat_shape n (snd AdA')"
proof -
  obtain A dA where AdA: "AdA = (A, dA)" by (cases AdA)
  from assms(1) obtain A' dA' where
    "mat_set A i j a = Inr A'" "mat_set dA i j a = Inr dA'" "AdA' = (A', dA')"
    unfolding AdA stamp_const_def prod.case bind_err_eq_Inr by blast
  then show ?thesis
    using assms(2) mat_set_shape [of A i j a A' n] mat_set_shape [of dA i j a dA' n]
    by (simp add: AdA)
qed

lemma stamp_P_guard_shape:
  assumes "(if g then stamp_P mu0 p i j s X else Inr X) = Inr X'"
    and "mat_shape n (fst X) \<and> mat_shape n (snd X)"
  shows "mat_shape n (fst X') \<and> mat_shape n (snd X')"
proof (cases g)
  case True
  then show ?thesis using assms stamp_P_shape [of mu0 p i j s X X' n] by simp
next
  case False
  then show ?thesis using assms by simp
qed

lemma stamp_const_guard_shape:
  assumes "(if g then stamp_const i j a X else Inr X) = Inr X'"
    and "mat_shape n (fst X) \<and> mat_shape n (snd X)"
  shows "mat_shape n (fst X') \<and> mat_shape n (snd X')"
proof (cases g)
  case True
  then show ?thesis using assms stamp_const_shape [of i j a X X' n] by simp
next
  case False
  then show ?thesis using assms by simp
qed

lemma vec_add_at_guard_length:
  assumes "(if g then vec_add_at b i a else Inr b) = Inr b'"
  shows "length b' = length b"
proof (cases g)
  case True
  then show ?thesis using assms vec_add_at_length [of b i a b'] by simp
next
  case False
  then show ?thesis using assms by simp
qed

lemma stamp_elem_shape:
  assumes "stamp_elem mu0 e S = Inr S'" "sys_shape n S"
  shows "sys_shape n S'"
proof -
  obtain A dA b where S: "S = (A, dA, b)" by (cases S)
  have sh: "mat_shape n (fst (A, dA)) \<and> mat_shape n (snd (A, dA))" and lb: "length b = n"
    using assms(2) by (simp_all add: S sys_shape_def)
  show ?thesis
  proof (cases e)
    case (Permeance p)
    from assms(1) obtain X1 X2 X3 where
      s1: "(if n1 p - 1 \<ge> 0 then stamp_P mu0 p (n1 p - 1) (n1 p - 1) 1 (A, dA) else Inr (A, dA)) = Inr X1"
      and s2: "(if n2 p - 1 \<ge> 0 then stamp_P mu0 p (n2 p - 1) (n2 p - 1) 1 X1 else Inr X1) = Inr X2"
      and s3: "(if n1 p - 1 \<ge> 0 \<and> n2 p - 1 \<ge> 0
                then bind_err (stamp_P mu0 p (n1 p - 1) (n2 p - 1) (- 1) X2)
                       (stamp_P mu0 p (n2 p - 1) (n1 p - 1) (- 1))
                else Inr X2) = Inr X3"
      and S': "S' = (fst X3, snd X3, b)"
      unfolding Permeance S stamp_elem.simps Let_def bind_err_eq_Inr by blast
    have h1: "mat_shape n (fst X1) \<and> mat_shape n (snd X1)"
      using stamp_P_guard_shape [OF s1 sh] .
    have h2: "mat_shape n (fst X2) \<and> mat_shape n (snd X2)"
      using stamp_P_guard_shape [OF s2 h1] .
    have h3: "mat_shape n (fst X3) \<and> mat_shape n (snd X3)"
    proof (cases "n1 p - 1 \<ge> 0 \<and> n2 p - 1 \<ge> 0")
      case True
      with s3 obtain Y where y1: "stamp_P mu0 p (n1 p - 1) (n2 p - 1) (- 1) X2 = Inr Y"
        and y2: "stamp_P mu0 p (n2 p - 1) (n1 p - 1) (- 1) Y = Inr X3"
        by (auto simp add: bind_err_eq_Inr)
      show ?thesis using stamp_P_shape [OF y2 stamp_P_shape [OF y1 h2]] .
    next
      case False
      with s3 h2 show ?thesis by auto
    qed
    show ?thesis using h3 lb by (simp add: S' sys_shape_def)
  next
    case (MMFSource s)
    then show ?thesis using assms S by simp
  next
    case (PHISource s)
    from assms(1) obtain b1 b2 where
      s1: "(if n1 s - 1 \<ge> 0 then vec_add_at b (n1 s - 1) (PHISource_PHI s) else Inr b) = Inr b1"
      and s2: "(if n2 s - 1 \<ge> 0 then vec_add_at b1 (n2 s - 1) (- PHISource_PHI s) else Inr b1) = Inr b2"
      and S': "S' = (A, dA, b2)"
      unfolding PHISource S stamp_elem.simps Let_def bind_err_eq_Inr by blast
    have "length b1 = length b"
      using vec_add_at_guard_length [OF s1] .
    moreover have "length b2 = length b1"
      using vec_add_at_guard_length [OF s2] .
    ultimately show ?thesis using sh lb by (simp add: S' sys_shape_def)
  qed
qed

lemma stamp_elems_shape:
  "stamp_elems mu0 es S = Inr S' \<Longrightarrow> sys_shape n S \<Longrightarrow> sys_shape n S'"
proof (induction es arbitrary: S)
  case Nil
  then show ?case by simp
next
  case (Cons e es)
  from Cons.prems(1) obtain S1 where "stamp_elem mu0 e S = Inr S1" "stamp_elems mu0 es S1 = Inr S'"
    unfolding stamp_elems.simps bind_err_eq_Inr by blast
  then show ?case using Cons.IH stamp_elem_shape Cons.prems(2) by blast
qed

lemma stamp_mmf_elem_shape:
  assumes "stamp_mmf_elem s index S = Inr S'" "sys_shape n S"
  shows "sys_shape n S'"
proof -
  obtain A dA b where S: "S = (A, dA, b)" by (cases S)
  have sh: "mat_shape n (fst (A, dA)) \<and> mat_shape n (snd (A, dA))" and lb: "length b = n"
    using assms(2) by (simp_all add: S sys_shape_def)
  from assms(1) obtain X1 X2 X3 X4 b' where
    s1: "(if n1 s - 1 \<ge> 0 then stamp_const (n1 s - 1) index 1 (A, dA) else Inr (A, dA)) = Inr X1"
    and s2: "(if n2 s - 1 \<ge> 0 then stamp_const (n2 s - 1) index (- 1) X1 else Inr X1) = Inr X2"
    and s3: "(if n1 s - 1 \<ge> 0 then stamp_const index (n1 s - 1) 1 X2 else Inr X2) = Inr X3"
    and s4: "(if n2 s - 1 \<ge> 0 then stamp_const index (n2 s - 1) (- 1) X3 else Inr X3) = Inr X4"
    and s5: "vec_set b index (MMFSource_MMF s) = Inr b'"
    and S': "S' = (fst X4, snd X4, b')"
    unfolding S stamp_mmf_elem_def prod.case Let_def bind_err_eq_Inr by blast
  have h1: "mat_shape n (fst X1) \<and> mat_shape n (snd X1)"
    using stamp_const_guard_shape [OF s1 sh] .
  have h2: "mat_shape n (fst X2) \<and> mat_shape n (snd X2)"
    using stamp_const_guard_shape [OF s2 h1] .
  have h3: "mat_shape n (fst X3) \<and> mat_shape n (snd X3)"
    using stamp_const_guard_shape [OF s3 h2] .
  have h4: "mat_shape n (fst X4) \<and> mat_shape n (snd X4)"
    using stamp_const_guard_shape [OF s4 h3] .
  show ?thesis using h4 lb vec_set_length [OF s5] by (simp add: S' sys_shape_def)
qed

lemma stamp_mmfs_shape:
  "stamp_mmfs es index S = Inr S' \<Longrightarrow> sys_shape n S \<Longrightarrow> sys_shape n S'"
proof (induction es arbitrary: index S)
  case Nil
  then show ?case by simp
next
  case (Cons e es)
  show ?case
  proof (cases e)
    case (MMFSource s)
    from Cons.prems(1) obtain S1 where "stamp_mmf_elem s index S = Inr S1"
      "stamp_mmfs es (index + 1) S1 = Inr S'"
      unfolding MMFSource stamp_mmfs.simps bind_err_eq_Inr by blast
    then show ?thesis using Cons.IH stamp_mmf_elem_shape Cons.prems(2) by blast
  next
    case (Permeance p)
    then show ?thesis using Cons by simp
  next
    case (PHISource s)
    then show ?thesis using Cons by simp
  qed
qed

lemma shaped_zip:
  "mat_shape n M \<Longrightarrow> length b = n \<Longrightarrow> shaped (length (zip M b)) (zip M b)"
  by (auto simp add: mat_shape_def shaped_def dest: set_zip_leftD)

lemma mat_vec_zip:
  "length M = length b \<Longrightarrow> (mat_vec M v = b) = (\<forall>r\<in>set (zip M b). dot (fst r) v = snd r)"
  by (induction M b rule: list_induct2) (auto simp add: mat_vec_def)

lemma mat_vec_zeros_zip:
  "length M = length b \<Longrightarrow>
     (mat_vec M v = zeros_vec (length M)) = (\<forall>r\<in>set (zip M b). dot (fst r) v = 0)"
  by (induction M b rule: list_induct2) (auto simp add: mat_vec_def zeros_vec_def)

lemma mat_vec_zeros_vec: "mat_vec M (zeros_vec n) = zeros_vec (length M)"
  by (induction M) (simp_all add: mat_vec_def zeros_vec_def dot_replicate_zero)

lemma vec_sub_zeros: "length b = n \<Longrightarrow> vec_sub b (zeros_vec n) = b"
  unfolding vec_sub_def zeros_vec_def
  by (induction b arbitrary: n) auto

lemma vec_sub_self: "vec_sub b b = zeros_vec (length b)"
  unfolding vec_sub_def zeros_vec_def by (induction b) simp_all

lemma is_square_shape: "is_square M = mat_shape (length M) M"
  by (simp add: is_square_def mat_shape_def)

lemma gauss_zip_solution:
  assumes "mat_shape n M" "length b = n" "gauss (zip M b) = Some sol"
  shows "length sol = n \<and> mat_vec M sol = b
       \<and> (\<forall>y. length y = n \<and> mat_vec M y = b \<longrightarrow> y = sol)"
proof -
  have lM: "length M = n" using assms(1) by (simp add: mat_shape_def)
  have lb: "length M = length b" using lM assms(2) by simp
  have sh: "shaped (length (zip M b)) (zip M b)" using shaped_zip [OF assms(1,2)] .
  have lz: "length (zip M b) = n" using lM assms(2) by simp
  from gauss_sound [OF sh assms(3)] have s1: "length sol = n"
    and s2: "\<forall>r\<in>set (zip M b). dot (fst r) sol = snd r" using lz by simp_all
  have "mat_vec M sol = b" using s2 mat_vec_zip [OF lb, of sol] by simp
  moreover have "y = sol" if "length y = n" "mat_vec M y = b" for y
    using gauss_unique [OF sh assms(3), of y] that mat_vec_zip [OF lb, of y] lz by simp
  ultimately show ?thesis using s1 by blast
qed

lemma dot_vec_add:
  "length u = length sol \<Longrightarrow> dot row (vec_add sol u) = dot row sol + dot row u"
  unfolding vec_add_def
proof (induction row arbitrary: sol u)
  case Nil
  then show ?case by simp
next
  case (Cons a row)
  then show ?case by (cases sol; cases u) (simp_all add: algebra_simps)
qed

lemma vec_add_cancel:
  "length sol = length v \<Longrightarrow> vec_add sol v = sol \<Longrightarrow> v = zeros_vec (length v)"
  unfolding vec_add_def zeros_vec_def
  by (induction sol v rule: list_induct2) simp_all

lemma gauss_zip_nonsingular:
  assumes "mat_shape n M" "length b = n" "gauss (zip M b) = Some sol"
  shows "\<not> singular M"
proof
  assume "singular M"
  have lM: "length M = n" using assms(1) by (simp add: mat_shape_def)
  have lb: "length M = length b" using lM assms(2) by simp
  from \<open>singular M\<close> obtain v where lv: "length v = n" and nz: "v \<noteq> zeros_vec n"
    and ker: "mat_vec M v = zeros_vec n"
    by (auto simp add: singular_def lM)
  from gauss_zip_solution [OF assms] have ls: "length sol = n" and ms: "mat_vec M sol = b"
    and un: "\<And>y. length y = n \<Longrightarrow> mat_vec M y = b \<Longrightarrow> y = sol" by auto
  let ?y = "vec_add sol v"
  have ly: "length ?y = n" using ls lv by (simp add: vec_add_def)
  have a: "\<forall>r\<in>set (zip M b). dot (fst r) sol = snd r" using ms mat_vec_zip [OF lb, of sol] by simp
  have k: "\<forall>r\<in>set (zip M b). dot (fst r) v = 0"
    using ker mat_vec_zeros_zip [OF lb, of v] lM by simp
  have "\<forall>r\<in>set (zip M b). dot (fst r) ?y = snd r"
    using a k dot_vec_add [of v sol] lv ls by simp
  then have "mat_vec M ?y = b" using mat_vec_zip [OF lb, of ?y] by simp
  then have "?y = sol" using un ly by blast
  then have "v = zeros_vec (length v)" using vec_add_cancel [of sol v] ls lv by simp
  with nz lv show False by simp
qed

lemma gauss_zip_None:
  assumes "mat_shape n M" "length b = n" "gauss (zip M b) = None"
  shows "singular M"
proof -
  have lM: "length M = n" using assms(1) by (simp add: mat_shape_def)
  have lb: "length M = length b" using lM assms(2) by simp
  have sh: "shaped (length (zip M b)) (zip M b)" using shaped_zip [OF assms(1,2)] .
  have lz: "length (zip M b) = length M" using lb by simp
  from gauss_singular [OF sh assms(3)] obtain v where "length v = length M"
    "v \<noteq> replicate (length M) 0" "\<forall>r\<in>set (zip M b). dot (fst r) v = 0"
    using lz by auto
  then show ?thesis
    using mat_vec_zeros_zip [OF lb, of v]
    by (auto simp add: singular_def zeros_vec_def)
qed

lemma nonsingular_gauss:
  assumes "mat_shape n M" "length b = n" "\<not> singular M"
  shows "\<exists>sol. gauss (zip M b) = Some sol"
  using gauss_zip_None [OF assms(1,2)] assms(3) by (cases "gauss (zip M b)") auto


lemma linalg_solve_gauss:
  assumes "mat_shape n M" "length b = n" "gauss (zip M b) = Some sol"
  shows "linalg_solve lu M b = Inr sol"
proof -
  have lM: "length M = n" using assms(1) by (simp add: mat_shape_def)
  show ?thesis using assms by (simp add: linalg_solve_def is_square_shape lM)
qed


lemma gauss_zero_rhs:
  assumes "mat_shape n M" "\<not> singular M"
  shows "gauss (zip M (zeros_vec n)) = Some (zeros_vec n)"
proof -
  have lM: "length M = n" using assms(1) by (simp add: mat_shape_def)
  have lz: "length (zeros_vec n) = n" by (simp add: zeros_vec_def)
  from nonsingular_gauss [OF assms(1) lz assms(2)] obtain y
    where y: "gauss (zip M (zeros_vec n)) = Some y" by blast
  from gauss_zip_solution [OF assms(1) lz y] have "length y = n" "mat_vec M y = zeros_vec n"
    by simp_all
  then have "y = zeros_vec n" using assms(2) by (auto simp add: singular_def lM)
  then show ?thesis using y by simp
qed

lemma update_mur_list_length:
  "update_mur_list mu0 mods x es = Inr es' \<Longrightarrow> length es' = length es"
  by (induction es arbitrary: es') (auto simp add: bind_err_eq_Inr)

lemma make_system_matrix_shape:
  assumes "make_system_matrix mu0 c x = Inr (c', J, b)"
  shows "mat_shape (length x) J \<and> length b = length x"
proof -
  from assms obtain c1 S A b0 where
    S: "stamp_elems mu0 (elems c1) (zeros_mat (length x), zeros_mat (length x), zeros_vec (length x)) = Inr S"
    and S2: "stamp_mmfs (elems c1) (get_nodes_number c1 - 1) S = Inr (A, J, b0)"
    and b: "b = vec_sub b0 (mat_vec A x)"
    by (auto simp add: make_system_matrix_def bind_err_eq_Inr Let_def split: prod.splits)
  have "sys_shape (length x) (zeros_mat (length x), zeros_mat (length x), zeros_vec (length x))"
    by (simp add: sys_shape_def mat_shape_zeros zeros_vec_def)
  from stamp_mmfs_shape [OF S2 stamp_elems_shape [OF S this]]
  have "mat_shape (length x) A" "mat_shape (length x) J" "length b0 = length x"
    by (simp_all add: sys_shape_def)
  then show ?thesis
    by (simp add: b vec_sub_def mat_vec_def mat_shape_def)
qed

section \<open>Properties of the solver loop\<close>

lemma newton_loop_error:
  "newton_pass lu mu0 gamma st = Inl e \<Longrightarrow> newton_loop lu mu0 gamma st = Inl e"
  by (subst newton_loop.simps) simp

lemma newton_loop_stop:
  "newton_pass lu mu0 gamma st = Inr st' \<Longrightarrow> stop st' \<Longrightarrow> newton_loop lu mu0 gamma st = Inr st'"
  by (subst newton_loop.simps) simp

lemma newton_loop_continue:
  "newton_pass lu mu0 gamma st = Inr st' \<Longrightarrow> \<not> stop st' \<Longrightarrow>
     newton_loop lu mu0 gamma st = newton_loop lu mu0 gamma (st'\<lparr>st_iter := st_iter st' + 1\<rparr>)"
  by (subst newton_loop.simps) simp

lemma newton_pass_eval:
  assumes "make_system_matrix mu0 (st_circ st) (st_x st) = Inr (c', J, b)"
    and "linalg_solve lu J b = Inr dx"
  shows "newton_pass lu mu0 gamma st =
     Inr (st\<lparr>st_circ := c',
             st_x := (if st_iter st = 0 then dx else vec_add (st_x st) (vec_scale gamma dx)),
             st_norm := linalg_norm (if st_iter st = 0 then dx
                                     else vec_add (st_x st) (vec_scale gamma dx)),
             st_dx := dx,
             st_err := float_ratio (linalg_norm dx)
                         (if st_iter st = 0 then linalg_norm dx else st_norm st)\<rparr>)"
  by (simp add: newton_pass_def assms bind_err_Inr Let_def)




section \<open>Evaluation of the example circuits\<close>

lemmas circuit_defs = add_model_def add_phi_source_def add_permeance_def add_mmf_source_def
  add_node_def Circuit_init_def register_def new_int_node_def len_def has_int_def has_name_def
  Permeance_init_def get_nodes_number_def get_MMFs_number_def

lemmas array_defs = py_index_def vec_get_def vec_set_def mat_get_def mat_set_def zeros_vec_def
  zeros_mat_def mat_vec_def vec_sub_def vec_add_def vec_scale_def vec_add_at_def bind_err_def
  fdiv_def

lemmas assembly_defs = update_mur_def make_system_matrix_def stamp_P_def stamp_const_def
  stamp_mmf_elem_def Permeance_P_def Permeance_dP_def Permeance_MMF_def Permeance_H_def
  MMFSource_MMF_def PHISource_PHI_def bh_model_mur_def bh_model_mur_d_def dmu_dH_def fp_def

lemmas solve_defs = linalg_solve_def is_square_def lead_def elim_def float_ratio_def

lemma linalg_norm_single: "linalg_norm [a] = \<bar>a\<bar>"
  by (simp add: linalg_norm_def)

lemma linalg_norm_zeros: "linalg_norm (zeros_vec n) = 0"
  by (induction n) (simp_all add: linalg_norm_def zeros_vec_def)

lemma nl_circuit_eq:
  "nl_circuit =
     \<lparr>elems = [PHISource \<lparr>part_id = ''PHI1'', n1 = 1, n2 = 0, val = 99 / 50\<rparr>,
        Permeance \<lparr>part_id = ''Rc'', n1 = 1, n2 = 0, mur = 1, mur_d = 1,
          w = 1000, d = 1000, l = 1000, model_label = Some ''quad''\<rparr>],
      nodes_dict = ([(1, ''n1''), (0, ''0'')], [(''n1'', 1), (''0'', 0)]),
      models = [''quad'' \<mapsto> quad_model]\<rparr>"
  by (simp add: nl_circuit_def circuit_defs quad_model_def Let_def)

lemma idle_circuit_eq:
  "idle_circuit =
     \<lparr>elems = [MMFSource \<lparr>part_id = ''MMF1'', n1 = 1, n2 = 0, val = 0\<rparr>,
        Permeance \<lparr>part_id = ''Rc'', n1 = 1, n2 = 2, mur = 3000, mur_d = 3000,
          w = 10, d = 10, l = 120, model_label = None\<rparr>,
        Permeance \<lparr>part_id = ''Rg'', n1 = 2, n2 = 0, mur = 1, mur_d = 1,
          w = 10, d = 10, l = 1, model_label = None\<rparr>],
      nodes_dict = ([(1, ''n1''), (0, ''0''), (2, ''n2'')], [(''n1'', 1), (''0'', 0), (''n2'', 2)]),
      models = Map.empty\<rparr>"
  by (simp add: idle_circuit_def circuit_defs Let_def)

lemma nl_pass0: "newton_pass lu (1 / 800000) gamma (solve_init nl_circuit 1) = Inr nl_state0"
  by (simp add: newton_pass_def solve_init_def nl_circuit_eq nl_state0_def assembly_defs
      array_defs solve_defs linalg_norm_single quad_model_def Let_def)

lemma nl_pass1: "newton_pass lu (1 / 800000) 1 (nl_state0\<lparr>st_iter := st_iter nl_state0 + 1\<rparr>) = Inr nl_state1"
  by (simp add: newton_pass_def nl_state0_def nl_state1_def assembly_defs
      array_defs solve_defs linalg_norm_single quad_model_def Let_def)

lemma nl_pass2: "newton_pass lu (1 / 800000) 1 (nl_state1\<lparr>st_iter := st_iter nl_state1 + 1\<rparr>) = Inr nl_state2"
  by (simp add: newton_pass_def nl_state1_def nl_state2_def assembly_defs
      array_defs solve_defs linalg_norm_single quad_model_def Let_def)

lemma idle_assembly:
  "make_system_matrix (1 / 800000) idle_circuit (zeros_vec 3) =
     Inr (idle_circuit,
          [[1 / 320000, - (1 / 320000), 1], [- (1 / 320000), 13 / 4000000, 0], [1, 0, 0]],
          zeros_vec 3)"
  by (simp add: idle_circuit_eq assembly_defs array_defs get_nodes_number_def len_def Let_def
      numeral_3_eq_3)

lemma series_gauss:
  "gauss (zip [[1 / 320000, - (1 / 320000), 1], [- (1 / 320000), 13 / 4000000, 0], [1, 0, 0]]
     [0, 0, 10000]) = Some [10000, 125000 / 13, - (1 / 832)]"
  by (simp add: lead_def elim_def)

lemma series_matrix_shape:
  "mat_shape 3 [[1 / 320000, - (1 / 320000), 1], [- (1 / 320000), 13 / 4000000, 0], [1, 0, 0]]"
  by (simp add: mat_shape_def)

lemma series_nonsingular:
  "\<not> singular [[1 / 320000, - (1 / 320000), 1], [- (1 / 320000), 13 / 4000000, 0], [1, 0, 0]]"
  using gauss_zip_nonsingular [OF series_matrix_shape _ series_gauss] by simp

lemma idle_last_pass:
  "newton_pass lu (1 / 800000) gamma (zero_state idle_circuit 3 2001)
     = Inr (zero_state idle_circuit 3 2001)"
proof -
  have z: "linalg_solve lu
      [[1 / 320000, - (1 / 320000), 1], [- (1 / 320000), 13 / 4000000, 0], [1, 0, 0]]
      (zeros_vec 3) = Inr (zeros_vec 3)"
    using linalg_solve_gauss [OF series_matrix_shape _ gauss_zero_rhs [OF series_matrix_shape
          series_nonsingular]]
    by (simp add: zeros_vec_def)
  have m: "make_system_matrix (1 / 800000) (st_circ (zero_state idle_circuit 3 2001))
             (st_x (zero_state idle_circuit 3 2001))
           = Inr (idle_circuit,
               [[1 / 320000, - (1 / 320000), 1], [- (1 / 320000), 13 / 4000000, 0], [1, 0, 0]],
               zeros_vec 3)"
    using idle_assembly by (simp add: zero_state_def)
  have v: "vec_add (zeros_vec 3) (vec_scale gamma (zeros_vec 3)) = zeros_vec 3"
    by (simp add: vec_add_def vec_scale_def zeros_vec_def numeral_3_eq_3)
  show ?thesis
    using newton_pass_eval [OF m z, of gamma]
    by (simp add: zero_state_def linalg_norm_zeros float_ratio_def v)
qed

section \<open>The convergence test\<close>

lemma nl_stop0: "\<not> stop nl_state0" by (simp add: stop_def nl_state0_def)

lemma nl_stop1: "\<not> stop nl_state1" by (simp add: stop_def nl_state1_def)

lemma nl_stop2: "stop nl_state2" by (simp add: stop_def nl_state2_def)

lemma nl_loop: "newton_loop lu (1 / 800000) 1 (solve_init nl_circuit 1) = Inr nl_state2"
  using newton_loop_continue [OF nl_pass0 nl_stop0, of lu 1]
    newton_loop_continue [OF nl_pass1 nl_stop1, of lu]
    newton_loop_stop [OF nl_pass2 nl_stop2, of lu]
  by simp

lemma nl_solve_state: "solve_state lu (1 / 800000) nl_circuit 1 = Inr nl_state2"
  using nl_loop [of lu]
  by (simp add: solve_state_def nl_circuit_eq get_nodes_number_def get_MMFs_number_def len_def Let_def)

text \<open>
  C1, as stated, fails: on \<open>nl_circuit\<close> the solver stops at its third pass (\<open>iter = 2\<close>),
  and the error it tests there is not \<open>norm(dx)\<close> over the norm of the first \<open>dx\<close>.
\<close>

theorem fixed_denominator_counterexample:
  "case newton_pass zero_pivot (1 / 800000) 1 (solve_init nl_circuit 1) of
     Inl e \<Rightarrow> False
   | Inr s0 \<Rightarrow>
       (case solve_state zero_pivot (1 / 800000) nl_circuit 1 of
          Inl e \<Rightarrow> False
        | Inr s \<Rightarrow> st_iter s = 2
            \<and> st_err s \<noteq> float_ratio (linalg_norm (st_dx s)) (linalg_norm (st_dx s0)))"
  unfolding nl_pass0 nl_solve_state sum.case
  by (simp add: nl_state0_def nl_state2_def linalg_norm_single float_ratio_def)

text \<open>
  C1, amended: a pass computes \<open>e = norm(dx)/n\<close>, where \<open>n\<close> is \<open>norm(dx)\<close> itself
  when \<open>iter = 0\<close> and the \<open>norm\<close> left by the pass before otherwise; every pass leaves
  \<open>norm = norm(x)\<close> of its iterate, so the next pass divides by that. The loop stops
  after a pass exactly when \<open>e < 0.001\<close> or \<open>iter > 2000\<close>, returning the state of
  that pass without error, and goes on to the next pass otherwise.
\<close>

theorem convergence_test:
  assumes "newton_pass lu mu0 gamma st = Inr st1"
  shows "st_err st1 = float_ratio (linalg_norm (st_dx st1))
                        (if st_iter st = 0 then linalg_norm (st_dx st1) else st_norm st)
       \<and> st_norm st1 = linalg_norm (st_x st1)
       \<and> stop st1 = ((\<exists>e. st_err st1 = Some e \<and> e < 1 / 1000) \<or> st_iter st > 2000)
       \<and> newton_loop lu mu0 gamma st =
           (if stop st1 then Inr st1
            else newton_loop lu mu0 gamma (st1\<lparr>st_iter := st_iter st + 1\<rparr>))
       \<and> (\<forall>st2. newton_pass lu mu0 gamma (st1\<lparr>st_iter := st_iter st + 1\<rparr>) = Inr st2 \<longrightarrow>
             st_err st2 = float_ratio (linalg_norm (st_dx st2)) (linalg_norm (st_x st1)))"
proof -
  have it: "st_iter st1 = st_iter st" using newton_pass_iter [OF assms] .
  have a: "st_err st1 = float_ratio (linalg_norm (st_dx st1))
                        (if st_iter st = 0 then linalg_norm (st_dx st1) else st_norm st)"
    using assms
    by (auto simp add: newton_pass_def bind_err_eq_Inr Let_def split: prod.splits)
  have n1: "st_norm st1 = linalg_norm (st_x st1)"
    using assms
    by (auto simp add: newton_pass_def bind_err_eq_Inr Let_def split: prod.splits)
  have c: "stop st1 = ((\<exists>e. st_err st1 = Some e \<and> e < 1 / 1000) \<or> st_iter st > 2000)"
    using it by (auto simp add: stop_def split: option.splits)
  have d: "newton_loop lu mu0 gamma st =
           (if stop st1 then Inr st1
            else newton_loop lu mu0 gamma (st1\<lparr>st_iter := st_iter st + 1\<rparr>))"
    using newton_loop_stop [OF assms] newton_loop_continue [OF assms] it by simp
  have e: "st_err st2 = float_ratio (linalg_norm (st_dx st2)) (linalg_norm (st_x st1))"
    if p2: "newton_pass lu mu0 gamma (st1\<lparr>st_iter := st_iter st + 1\<rparr>) = Inr st2" for st2
    using p2 n1
    by (auto simp add: newton_pass_def bind_err_eq_Inr Let_def split: prod.splits)
  show ?thesis
    apply (intro conjI allI impI)
    subgoal by (rule a)
    subgoal by (rule n1)
    subgoal by (rule c)
    subgoal by (rule d)
    subgoal by (rule e)
    done
qed

theorem convergence_test_witness:
  "newton_pass zero_pivot (1 / 800000) 1 (nl_state1\<lparr>st_iter := 2\<rparr>) = Inr nl_state2
   \<and> st_norm (nl_state1\<lparr>st_iter := 2\<rparr>) = 97 / 48
   \<and> st_err nl_state2 = float_ratio (linalg_norm (st_dx nl_state2)) (97 / 48)
   \<and> st_err nl_state2 = Some (1 / 446782)
   \<and> stop nl_state2
   \<and> newton_loop zero_pivot (1 / 800000) 1 (nl_state1\<lparr>st_iter := 2\<rparr>) = Inr nl_state2
   \<and> newton_pass zero_pivot (1 / 800000) 1 (solve_init nl_circuit 1) = Inr nl_state0
   \<and> st_err nl_state0 = Some 1 \<and> \<not> stop nl_state0
   \<and> newton_loop zero_pivot (1 / 800000) 1 (solve_init nl_circuit 1)
       = newton_loop zero_pivot (1 / 800000) 1 (nl_state0\<lparr>st_iter := 1\<rparr>)
   \<and> newton_pass zero_pivot (1 / 800000) 1 (zero_state idle_circuit 3 2001)
       = Inr (zero_state idle_circuit 3 2001)
   \<and> st_err (zero_state idle_circuit 3 2001) = None
   \<and> stop (zero_state idle_circuit 3 2001)
   \<and> newton_loop zero_pivot (1 / 800000) 1 (zero_state idle_circuit 3 2001)
       = Inr (zero_state idle_circuit 3 2001)"
proof -
  have i1: "st_iter nl_state1 + 1 = 2" by (simp add: nl_state1_def)
  have p2: "newton_pass zero_pivot (1 / 800000) 1 (nl_state1\<lparr>st_iter := 2\<rparr>) = Inr nl_state2"
    using nl_pass2 [of zero_pivot] unfolding i1 .
  have p0: "newton_pass zero_pivot (1 / 800000) 1 (solve_init nl_circuit 1) = Inr nl_state0"
    by (rule nl_pass0)
  have pz: "newton_pass zero_pivot (1 / 800000) 1 (zero_state idle_circuit 3 2001)
              = Inr (zero_state idle_circuit 3 2001)"
    by (rule idle_last_pass)
  note t2 = convergence_test [OF p2]
  note t0 = convergence_test [OF p0]
  note tz = convergence_test [OF pz]
  have s2: "stop nl_state2" by (simp add: stop_def nl_state2_def)
  have s0: "\<not> stop nl_state0" by (simp add: stop_def nl_state0_def)
  have sz: "stop (zero_state idle_circuit 3 2001)" by (simp add: stop_def zero_state_def)
  have l2: "newton_loop zero_pivot (1 / 800000) 1 (nl_state1\<lparr>st_iter := 2\<rparr>) = Inr nl_state2"
    using t2 s2 by simp
  have l0: "newton_loop zero_pivot (1 / 800000) 1 (solve_init nl_circuit 1)
       = newton_loop zero_pivot (1 / 800000) 1 (nl_state0\<lparr>st_iter := 1\<rparr>)"
    using t0 s0 by (simp add: solve_init_def)
  have lz: "newton_loop zero_pivot (1 / 800000) 1 (zero_state idle_circuit 3 2001)
       = Inr (zero_state idle_circuit 3 2001)"
    using tz sz by simp
  have e2: "st_err nl_state2 = float_ratio (linalg_norm (st_dx nl_state2)) (97 / 48)"
    using t2 by (simp add: nl_state1_def)
  show ?thesis
    using p2 p0 pz s2 s0 sz l2 l0 lz e2
    by (simp add: nl_state0_def nl_state1_def nl_state2_def zero_state_def)
qed

section \<open>One pass of the solver\<close>










lemma nl_assembly1:
  "make_system_matrix (1 / 800000) nl_circuit [2] = Inr (st_circ nl_state1, [[24 / 25]], [1 / 50])"
  by (simp add: nl_circuit_eq nl_state1_def assembly_defs array_defs
      get_nodes_number_def len_def quad_model_def Let_def)



section \<open>Linear circuits\<close>

lemma update_mur_list_linear:
  "\<forall>e\<in>set es. linear_elem e \<Longrightarrow> update_mur_list mu0 mods x es = Inr es"
proof (induction es)
  case Nil
  then show ?case by simp
next
  case (Cons e es)
  have "update_mur_elem mu0 mods x e = Inr e"
    using Cons.prems by (cases e) simp_all
  then show ?case using Cons by (simp add: bind_err_Inr)
qed

lemma update_mur_linear:
  "\<forall>e\<in>set (elems c). linear_elem e \<Longrightarrow> update_mur mu0 c x = Inr c"
  by (simp add: update_mur_def update_mur_list_linear bind_err_Inr)

lemma Permeance_dP_linear: "mur_d p = mur p \<Longrightarrow> Permeance_dP mu0 p = Permeance_P mu0 p"
  by (simp add: Permeance_dP_def Permeance_P_def)

lemma stamp_P_same:
  assumes "stamp_P mu0 p i j s X = Inr X'" "fst X = snd X" "mur_d p = mur p"
  shows "fst X' = snd X'"
proof -
  obtain A dA where X: "X = (A, dA)" by (cases X)
  have eq: "dA = A" using assms(2) X by simp
  from assms(1) obtain a P A' da dP dA' where
    "mat_get A i j = Inr a" "Permeance_P mu0 p = Inr P" "mat_set A i j (a + s * P) = Inr A'"
    "mat_get A i j = Inr da" "Permeance_P mu0 p = Inr dP" "mat_set A i j (da + s * dP) = Inr dA'"
    "X' = (A', dA')"
    unfolding X eq stamp_P_def prod.case bind_err_eq_Inr Permeance_dP_linear [OF assms(3)]
    by blast
  then show ?thesis by simp
qed

lemma stamp_P_guard_same:
  assumes "(if g then stamp_P mu0 p i j s X else Inr X) = Inr X'" "fst X = snd X" "mur_d p = mur p"
  shows "fst X' = snd X'"
proof (cases g)
  case True
  then show ?thesis using assms stamp_P_same [of mu0 p i j s X X'] by simp
next
  case False
  then show ?thesis using assms by simp
qed

lemma stamp_const_guard_same:
  assumes "(if g then stamp_const i j a X else Inr X) = Inr X'" "fst X = snd X"
  shows "fst X' = snd X'"
proof (cases g)
  case True
  obtain A dA where X: "X = (A, dA)" by (cases X)
  have eq: "dA = A" using assms(2) X by simp
  from True assms(1) have "stamp_const i j a (A, A) = Inr X'" by (simp add: X eq)
  then obtain A' dA' where
    "mat_set A i j a = Inr A'" "mat_set A i j a = Inr dA'" "X' = (A', dA')"
    unfolding stamp_const_def prod.case bind_err_eq_Inr by blast
  then show ?thesis by simp
next
  case False
  then show ?thesis using assms by simp
qed

lemma stamp_elem_same:
  assumes "stamp_elem mu0 e S = Inr S'" "same_mats S" "linear_elem e"
  shows "same_mats S'"
proof -
  obtain A dA b where S: "S = (A, dA, b)" by (cases S)
  have sh: "fst (A, dA) = snd (A, dA)" using assms(2) by (simp add: S same_mats_def)
  show ?thesis
  proof (cases e)
    case (Permeance p)
    have lin: "mur_d p = mur p" using assms(3) Permeance by simp
    from assms(1) obtain X1 X2 X3 where
      s1: "(if n1 p - 1 \<ge> 0 then stamp_P mu0 p (n1 p - 1) (n1 p - 1) 1 (A, dA) else Inr (A, dA)) = Inr X1"
      and s2: "(if n2 p - 1 \<ge> 0 then stamp_P mu0 p (n2 p - 1) (n2 p - 1) 1 X1 else Inr X1) = Inr X2"
      and s3: "(if n1 p - 1 \<ge> 0 \<and> n2 p - 1 \<ge> 0
                then bind_err (stamp_P mu0 p (n1 p - 1) (n2 p - 1) (- 1) X2)
                       (stamp_P mu0 p (n2 p - 1) (n1 p - 1) (- 1))
                else Inr X2) = Inr X3"
      and S': "S' = (fst X3, snd X3, b)"
      unfolding Permeance S stamp_elem.simps Let_def bind_err_eq_Inr by blast
    have h1: "fst X1 = snd X1" using stamp_P_guard_same [OF s1 sh lin] .
    have h2: "fst X2 = snd X2" using stamp_P_guard_same [OF s2 h1 lin] .
    have h3: "fst X3 = snd X3"
    proof (cases "n1 p - 1 \<ge> 0 \<and> n2 p - 1 \<ge> 0")
      case True
      with s3 obtain Y where y1: "stamp_P mu0 p (n1 p - 1) (n2 p - 1) (- 1) X2 = Inr Y"
        and y2: "stamp_P mu0 p (n2 p - 1) (n1 p - 1) (- 1) Y = Inr X3"
        by (auto simp add: bind_err_eq_Inr)
      show ?thesis using stamp_P_same [OF y2 stamp_P_same [OF y1 h2 lin] lin] .
    next
      case False
      with s3 h2 show ?thesis by auto
    qed
    show ?thesis using h3 by (simp add: S' same_mats_def)
  next
    case (MMFSource s)
    then show ?thesis using assms S by simp
  next
    case (PHISource s)
    from assms(1) obtain b2 where "S' = (A, dA, b2)"
      unfolding PHISource S stamp_elem.simps Let_def bind_err_eq_Inr by blast
    then show ?thesis using sh by (simp add: same_mats_def)
  qed
qed

lemma stamp_elems_same:
  "stamp_elems mu0 es S = Inr S' \<Longrightarrow> same_mats S \<Longrightarrow> \<forall>e\<in>set es. linear_elem e \<Longrightarrow> same_mats S'"
proof (induction es arbitrary: S)
  case Nil
  then show ?case by simp
next
  case (Cons e es)
  from Cons.prems(1) obtain S1 where s: "stamp_elem mu0 e S = Inr S1" "stamp_elems mu0 es S1 = Inr S'"
    unfolding stamp_elems.simps bind_err_eq_Inr by blast
  have "same_mats S1" using stamp_elem_same [OF s(1) Cons.prems(2)] Cons.prems(3) by simp
  then show ?case using Cons.IH [OF s(2)] Cons.prems(3) by simp
qed

lemma stamp_mmf_elem_same:
  assumes "stamp_mmf_elem s index S = Inr S'" "same_mats S"
  shows "same_mats S'"
proof -
  obtain A dA b where S: "S = (A, dA, b)" by (cases S)
  have sh: "fst (A, dA) = snd (A, dA)" using assms(2) by (simp add: S same_mats_def)
  from assms(1) obtain X1 X2 X3 X4 b' where
    s1: "(if n1 s - 1 \<ge> 0 then stamp_const (n1 s - 1) index 1 (A, dA) else Inr (A, dA)) = Inr X1"
    and s2: "(if n2 s - 1 \<ge> 0 then stamp_const (n2 s - 1) index (- 1) X1 else Inr X1) = Inr X2"
    and s3: "(if n1 s - 1 \<ge> 0 then stamp_const index (n1 s - 1) 1 X2 else Inr X2) = Inr X3"
    and s4: "(if n2 s - 1 \<ge> 0 then stamp_const index (n2 s - 1) (- 1) X3 else Inr X3) = Inr X4"
    and S': "S' = (fst X4, snd X4, b')"
    unfolding S stamp_mmf_elem_def prod.case Let_def bind_err_eq_Inr by blast
  have "fst X4 = snd X4"
    using stamp_const_guard_same [OF s4 stamp_const_guard_same [OF s3
          stamp_const_guard_same [OF s2 stamp_const_guard_same [OF s1 sh]]]] .
  then show ?thesis by (simp add: S' same_mats_def)
qed

lemma stamp_mmfs_same:
  "stamp_mmfs es index S = Inr S' \<Longrightarrow> same_mats S \<Longrightarrow> same_mats S'"
proof (induction es arbitrary: index S)
  case Nil
  then show ?case by simp
next
  case (Cons e es)
  show ?case
  proof (cases e)
    case (MMFSource s)
    from Cons.prems(1) obtain S1 where s: "stamp_mmf_elem s index S = Inr S1"
      "stamp_mmfs es (index + 1) S1 = Inr S'"
      unfolding MMFSource stamp_mmfs.simps bind_err_eq_Inr by blast
    show ?thesis using Cons.IH [OF s(2) stamp_mmf_elem_same [OF s(1) Cons.prems(2)]] .
  next
    case (Permeance p)
    then show ?thesis using Cons by simp
  next
    case (PHISource s)
    then show ?thesis using Cons by simp
  qed
qed

text \<open>The assembly of a linear circuit: the matrices do not depend on the iterate.\<close>

lemma make_system_matrix_linear:
  assumes lin: "\<forall>e\<in>set (elems c). linear_elem e"
    and m: "make_system_matrix mu0 c x = Inr (c1, J, b)"
  shows "c1 = c \<and> (\<exists>b0. length b0 = length x \<and> b = vec_sub b0 (mat_vec J x)
           \<and> (\<forall>y. length y = length x \<longrightarrow>
                 make_system_matrix mu0 c y = Inr (c, J, vec_sub b0 (mat_vec J y))))"
proof -
  let ?Z = "(zeros_mat (length x), zeros_mat (length x), zeros_vec (length x))"
  from m obtain S A b0 where
    S: "stamp_elems mu0 (elems c) ?Z = Inr S"
    and S2: "stamp_mmfs (elems c) (get_nodes_number c - 1) S = Inr (A, J, b0)"
    and b: "b = vec_sub b0 (mat_vec A x)" and c1: "c1 = c"
    unfolding make_system_matrix_def update_mur_linear [OF lin] bind_err_Inr Let_def
      bind_err_eq_Inr
    by (auto split: prod.splits)
  have "same_mats ?Z" by (simp add: same_mats_def)
  from stamp_mmfs_same [OF S2 stamp_elems_same [OF S this lin]]
  have AJ: "A = J" by (simp add: same_mats_def)
  have "sys_shape (length x) ?Z"
    by (simp add: sys_shape_def mat_shape_zeros zeros_vec_def)
  from stamp_mmfs_shape [OF S2 stamp_elems_shape [OF S this]]
  have lb: "length b0 = length x" by (simp add: sys_shape_def)
  have "make_system_matrix mu0 c y = Inr (c, J, vec_sub b0 (mat_vec J y))"
    if "length y = length x" for y
    unfolding make_system_matrix_def update_mur_linear [OF lin] bind_err_Inr Let_def that S S2
    by (simp add: AJ)
  then show ?thesis using c1 b lb AJ by blast
qed

lemma sum_squares_zero: "sum_list (map (\<lambda>a. a * a) v) = 0 \<longleftrightarrow> v = replicate (length v) (0::real)"
proof (induction v)
  case Nil
  then show ?case by simp
next
  case (Cons a v)
  have nn: "0 \<le> sum_list (map (\<lambda>a. a * a) v)" by (rule sum_list_nonneg) auto
  have "a * a + sum_list (map (\<lambda>a. a * a) v) = 0 \<longleftrightarrow> a = 0 \<and> sum_list (map (\<lambda>a. a * a) v) = 0"
    using nn by (auto simp add: add_nonneg_eq_0_iff)
  then show ?case using Cons by simp
qed

lemma linalg_norm_zero_iff: "linalg_norm v = 0 \<longleftrightarrow> v = zeros_vec (length v)"
  by (simp add: linalg_norm_def zeros_vec_def sum_squares_zero)

lemma vec_add_scale_zeros: "length v = n \<Longrightarrow> vec_add v (vec_scale g (zeros_vec n)) = v"
  unfolding vec_add_def vec_scale_def zeros_vec_def
  by (induction v arbitrary: n) auto

text \<open>
  C9, amended: for a circuit of linear elements whose assembled matrix is not singular and
  whose right-hand side is not zero, the solver stops at its second pass (\<open>iter = 1\<close>)
  with the exact solution of the linear system; the second \<open>dx\<close> is zero and the tested
  error is 0.
\<close>

theorem linear_circuit_converges:
  assumes lin: "\<forall>e\<in>set (elems c). linear_elem e"
    and size: "0 \<le> get_nodes_number c + get_MMFs_number c - 1"
    and n: "n = nat (get_nodes_number c + get_MMFs_number c - 1)"
    and m0: "make_system_matrix mu0 c (zeros_vec n) = Inr (c1, J, b)"
    and ns: "\<not> singular J"
    and bnz: "b \<noteq> zeros_vec n"
  shows "\<exists>x0 s. length x0 = n \<and> mat_vec J x0 = b
           \<and> solve_state lu mu0 c gamma = Inr s \<and> st_iter s = 1 \<and> st_x s = x0
           \<and> st_dx s = zeros_vec n \<and> st_err s = Some 0
           \<and> solve_circuit lu mu0 c gamma = Inr x0"
proof -
  have lz: "length (zeros_vec n) = n" by (simp add: zeros_vec_def)
  from make_system_matrix_shape [OF m0] have sh: "mat_shape n J" and lb: "length b = n"
    by (simp_all add: lz)
  have lJ: "length J = n" using sh by (simp add: mat_shape_def)
  from make_system_matrix_linear [OF lin m0] obtain b0 where
    c1: "c1 = c" and lb0: "length b0 = n"
    and b: "b = vec_sub b0 (mat_vec J (zeros_vec n))"
    and all: "\<And>y. length y = n \<Longrightarrow> make_system_matrix mu0 c y = Inr (c, J, vec_sub b0 (mat_vec J y))"
    using lz by auto
  have bb0: "b = b0"
    using b lb0 lJ by (simp add: mat_vec_zeros_vec vec_sub_zeros)
  from nonsingular_gauss [OF sh lb ns] obtain x0 where g: "gauss (zip J b) = Some x0" by blast
  have x0: "linalg_solve lu J b = Inr x0" using linalg_solve_gauss [OF sh lb g] .
  from gauss_zip_solution [OF sh lb g] have lx0: "length x0 = n" and mx0: "mat_vec J x0 = b"
    by simp_all
  have x0nz: "x0 \<noteq> zeros_vec n"
  proof
    assume "x0 = zeros_vec n"
    then have "b = zeros_vec n" using mx0 lJ by (simp add: mat_vec_zeros_vec)
    then show False using bnz by simp
  qed
  have nz: "linalg_norm x0 \<noteq> 0" using x0nz lx0 by (simp add: linalg_norm_zero_iff)
  let ?st0 = "solve_init c n"
  let ?s0 = "?st0\<lparr>st_circ := c, st_x := x0, st_norm := linalg_norm x0, st_dx := x0,
                   st_err := Some 1\<rparr>"
  have m0': "make_system_matrix mu0 (st_circ ?st0) (st_x ?st0) = Inr (c, J, b)"
    using m0 c1 by (simp add: solve_init_def)
  have p0: "newton_pass lu mu0 gamma ?st0 = Inr ?s0"
    using newton_pass_eval [OF m0' x0, of gamma] nz
    by (simp add: solve_init_def float_ratio_def)
  have ns0: "\<not> stop ?s0" by (simp add: stop_def solve_init_def)
  let ?st1 = "?s0\<lparr>st_iter := st_iter ?s0 + 1\<rparr>"
  have m1: "make_system_matrix mu0 (st_circ ?st1) (st_x ?st1) = Inr (c, J, zeros_vec n)"
    using all [OF lx0] mx0 bb0 lb0 lJ by (simp add: vec_sub_self)
  have z: "linalg_solve lu J (zeros_vec n) = Inr (zeros_vec n)"
    using linalg_solve_gauss [OF sh lz gauss_zero_rhs [OF sh ns]] .
  let ?s1 = "?st1\<lparr>st_circ := c, st_x := x0, st_norm := linalg_norm x0, st_dx := zeros_vec n,
                   st_err := Some 0\<rparr>"
  have p1: "newton_pass lu mu0 gamma ?st1 = Inr ?s1"
    using newton_pass_eval [OF m1 z, of gamma] nz lx0 lJ
    by (simp add: solve_init_def float_ratio_def linalg_norm_zeros vec_add_scale_zeros)
  have s1: "stop ?s1" by (simp add: stop_def)
  have loop: "newton_loop lu mu0 gamma ?st0 = Inr ?s1"
    using newton_loop_continue [OF p0 ns0] newton_loop_stop [OF p1 s1] by simp
  have ss: "solve_state lu mu0 c gamma = Inr ?s1"
    using loop size n by (simp add: solve_state_def Let_def)
  have sc: "solve_circuit lu mu0 c gamma = Inr x0"
    by (simp add: solve_circuit_def ss bind_err_Inr)
  have "length x0 = n \<and> mat_vec J x0 = b
           \<and> solve_state lu mu0 c gamma = Inr ?s1 \<and> st_iter ?s1 = 1 \<and> st_x ?s1 = x0
           \<and> st_dx ?s1 = zeros_vec n \<and> st_err ?s1 = Some 0
           \<and> solve_circuit lu mu0 c gamma = Inr x0"
    using lx0 mx0 ss sc by (simp add: solve_init_def)
  then show ?thesis by blast
qed

text \<open>
  With a zero right-hand side every pass finds \<open>dx = 0\<close>, the tested ratio is \<open>0/0\<close>,
  and the loop runs until \<open>iter > 2000\<close>.
\<close>

lemma zero_rhs_pass:
  assumes lin: "\<forall>e\<in>set (elems c). linear_elem e"
    and m0: "make_system_matrix mu0 c (zeros_vec n) = Inr (c1, J, zeros_vec n)"
    and ns: "\<not> singular J"
    and st: "st_circ st = c" "st_x st = zeros_vec n" "st_norm st = 0"
  shows "newton_pass lu mu0 gamma st = Inr (zero_state c n (st_iter st))"
proof -
  have lz: "length (zeros_vec n) = n" by (simp add: zeros_vec_def)
  from make_system_matrix_shape [OF m0] have sh: "mat_shape n J" by (simp add: lz)
  have c1: "c1 = c" using make_system_matrix_linear [OF lin m0] by simp
  have z: "linalg_solve lu J (zeros_vec n) = Inr (zeros_vec n)"
    using linalg_solve_gauss [OF sh lz gauss_zero_rhs [OF sh ns]] .
  have m: "make_system_matrix mu0 (st_circ st) (st_x st) = Inr (c, J, zeros_vec n)"
    using m0 c1 st by simp
  have "newton_pass lu mu0 gamma st =
          Inr (st\<lparr>st_circ := c, st_x := zeros_vec n, st_norm := 0, st_dx := zeros_vec n,
                 st_err := None\<rparr>)"
    using newton_pass_eval [OF m z, of gamma] st lz
    by (simp add: linalg_norm_zeros vec_add_scale_zeros float_ratio_def)
  then show ?thesis by (simp add: zero_state_def)
qed

lemma zero_rhs_loop:
  assumes lin: "\<forall>e\<in>set (elems c). linear_elem e"
    and m0: "make_system_matrix mu0 c (zeros_vec n) = Inr (c1, J, zeros_vec n)"
    and ns: "\<not> singular J"
  shows "k \<le> 2001 \<Longrightarrow> newton_loop lu mu0 gamma (zero_state c n k) = Inr (zero_state c n 2001)"
proof (induction "2001 - k" arbitrary: k)
  case 0
  then have k: "k = 2001" by simp
  have p: "newton_pass lu mu0 gamma (zero_state c n k) = Inr (zero_state c n k)"
    using zero_rhs_pass [OF lin m0 ns, of "zero_state c n k"] by (simp add: zero_state_def)
  have "stop (zero_state c n k)" by (simp add: stop_def zero_state_def k)
  from newton_loop_stop [OF p this] show ?case by (simp add: k)
next
  case (Suc j)
  then have k: "k \<le> 2000" by simp
  have p: "newton_pass lu mu0 gamma (zero_state c n k) = Inr (zero_state c n k)"
    using zero_rhs_pass [OF lin m0 ns, of "zero_state c n k"] by (simp add: zero_state_def)
  have ns': "\<not> stop (zero_state c n k)" using k by (simp add: stop_def zero_state_def)
  have nx: "(zero_state c n k)\<lparr>st_iter := st_iter (zero_state c n k) + 1\<rparr> = zero_state c n (Suc k)"
    by (simp add: zero_state_def)
  have ih: "newton_loop lu mu0 gamma (zero_state c n (Suc k)) = Inr (zero_state c n 2001)"
    using Suc.hyps(1) [of "Suc k"] Suc.hyps(2) k by simp
  have "newton_loop lu mu0 gamma (zero_state c n k)
          = newton_loop lu mu0 gamma ((zero_state c n k)\<lparr>st_iter := st_iter (zero_state c n k) + 1\<rparr>)"
    by (rule newton_loop_continue [OF p ns'])
  also have "\<dots> = newton_loop lu mu0 gamma (zero_state c n (Suc k))" by (simp only: nx)
  also have "\<dots> = Inr (zero_state c n 2001)" by (rule ih)
  finally show ?case .
qed

lemma zero_rhs_exhausts:
  assumes lin: "\<forall>e\<in>set (elems c). linear_elem e"
    and size: "0 \<le> get_nodes_number c + get_MMFs_number c - 1"
    and n: "n = nat (get_nodes_number c + get_MMFs_number c - 1)"
    and m0: "make_system_matrix mu0 c (zeros_vec n) = Inr (c1, J, zeros_vec n)"
    and ns: "\<not> singular J"
  shows "solve_state lu mu0 c gamma = Inr (zero_state c n 2001)"
proof -
  have p: "newton_pass lu mu0 gamma (solve_init c n) = Inr (zero_state c n 0)"
    using zero_rhs_pass [OF lin m0 ns, of "solve_init c n"] by (simp add: solve_init_def)
  have ns': "\<not> stop (zero_state c n 0)" by (simp add: stop_def zero_state_def)
  have nx: "(zero_state c n 0)\<lparr>st_iter := st_iter (zero_state c n 0) + 1\<rparr> = zero_state c n 1"
    by (simp add: zero_state_def)
  have "newton_loop lu mu0 gamma (solve_init c n)
          = newton_loop lu mu0 gamma ((zero_state c n 0)\<lparr>st_iter := st_iter (zero_state c n 0) + 1\<rparr>)"
    by (rule newton_loop_continue [OF p ns'])
  also have "\<dots> = newton_loop lu mu0 gamma (zero_state c n 1)" by (simp only: nx)
  also have "\<dots> = Inr (zero_state c n 2001)"
    using zero_rhs_loop [OF lin m0 ns, of 1 lu gamma] by simp
  finally show ?thesis using size n by (simp add: solve_state_def Let_def)
qed

lemma series_circuit_eq:
  "series_circuit =
     \<lparr>elems = [MMFSource \<lparr>part_id = ''MMF1'', n1 = 1, n2 = 0, val = 10000\<rparr>,
        Permeance \<lparr>part_id = ''Rc'', n1 = 1, n2 = 2, mur = 3000, mur_d = 3000,
          w = 10, d = 10, l = 120, model_label = None\<rparr>,
        Permeance \<lparr>part_id = ''Rg'', n1 = 2, n2 = 0, mur = 1, mur_d = 1,
          w = 10, d = 10, l = 1, model_label = None\<rparr>],
      nodes_dict = ([(1, ''n1''), (0, ''0''), (2, ''n2'')], [(''n1'', 1), (''0'', 0), (''n2'', 2)]),
      models = Map.empty\<rparr>"
  by (simp add: series_circuit_def circuit_defs Let_def)

lemma floating_circuit_eq:
  "floating_circuit =
     \<lparr>elems = [MMFSource \<lparr>part_id = ''MMF1'', n1 = 1, n2 = 0, val = 10000\<rparr>,
        Permeance \<lparr>part_id = ''Rx'', n1 = 2, n2 = 3, mur = 1, mur_d = 1,
          w = 10, d = 10, l = 1, model_label = None\<rparr>],
      nodes_dict = ([(1, ''n1''), (0, ''0''), (2, ''a''), (3, ''b'')],
                    [(''n1'', 1), (''0'', 0), (''a'', 2), (''b'', 3)]),
      models = Map.empty\<rparr>"
  by (simp add: floating_circuit_def circuit_defs Let_def)

lemma series_assembly:
  "make_system_matrix (1 / 800000) series_circuit (zeros_vec 3) =
     Inr (series_circuit,
          [[1 / 320000, - (1 / 320000), 1], [- (1 / 320000), 13 / 4000000, 0], [1, 0, 0]],
          [0, 0, 10000])"
  by (simp add: series_circuit_eq assembly_defs array_defs get_nodes_number_def len_def Let_def
      numeral_3_eq_3)

text \<open>
  A linear circuit with a floating branch: the assembled matrix is singular, the
  elimination meets a zero pivot, and the solver raises LinAlgError.
\<close>

lemma floating_pass:
  "newton_pass zero_pivot (1 / 800000) 1 (solve_init floating_circuit 4) = Inl LinAlgError"
  by (simp add: newton_pass_def solve_init_def floating_circuit_eq assembly_defs array_defs
      solve_defs zero_pivot_def get_nodes_number_def len_def Let_def numeral_eq_Suc)

lemma floating_circuit_raises:
  "solve_circuit zero_pivot (1 / 800000) floating_circuit 1 = Inl LinAlgError"
  using newton_loop_error [OF floating_pass]
  by (simp add: solve_circuit_def solve_state_def bind_err_def floating_circuit_eq
      get_nodes_number_def get_MMFs_number_def len_def Let_def)

text \<open>
  C9, as stated, fails: \<open>idle_circuit\<close> has only linear permeances and one MMF source,
  whose value is 0. Its matrix is not singular; every pass finds \<open>dx = 0\<close> and tests
  \<open>0/0\<close>, and the solver leaves the loop only at \<open>iter = 2001\<close>, whatever the relaxation
  factor and the treatment of singular matrices.
\<close>

theorem linear_circuit_counterexample:
  "list_all linear_elem (elems idle_circuit)
   \<and> get_MMFs_number idle_circuit = 1
   \<and> (\<forall>lu gamma. solve_state lu (1 / 800000) idle_circuit gamma
                    = Inr (zero_state idle_circuit 3 2001))
   \<and> st_iter (zero_state idle_circuit 3 2001) = 2001
   \<and> st_err (zero_state idle_circuit 3 2001) = None"
proof -
  have lin: "\<forall>e\<in>set (elems idle_circuit). linear_elem e"
    by (simp add: idle_circuit_eq)
  have size: "0 \<le> get_nodes_number idle_circuit + get_MMFs_number idle_circuit - 1"
    and n: "3 = nat (get_nodes_number idle_circuit + get_MMFs_number idle_circuit - 1)"
    by (simp_all add: idle_circuit_eq get_nodes_number_def get_MMFs_number_def len_def)
  have "solve_state lu (1 / 800000) idle_circuit gamma = Inr (zero_state idle_circuit 3 2001)"
    for lu gamma
    using zero_rhs_exhausts [OF lin size n idle_assembly series_nonsingular] .
  then show ?thesis
    by (simp add: idle_circuit_eq get_MMFs_number_def len_def zero_state_def)
qed

theorem linear_circuit_converges_witness:
  "list_all linear_elem (elems series_circuit)
   \<and> get_MMFs_number series_circuit = 1
   \<and> make_system_matrix (1 / 800000) series_circuit (zeros_vec 3) =
       Inr (series_circuit,
          [[1 / 320000, - (1 / 320000), 1], [- (1 / 320000), 13 / 4000000, 0], [1, 0, 0]],
          [0, 0, 10000])
   \<and> \<not> singular [[1 / 320000, - (1 / 320000), 1], [- (1 / 320000), 13 / 4000000, 0], [1, 0, 0]]
   \<and> solve_circuit zero_pivot (1 / 800000) series_circuit 1
       = Inr [10000, 125000 / 13, - (1 / 832)]
   \<and> (case solve_state zero_pivot (1 / 800000) series_circuit 1 of
         Inl e \<Rightarrow> False
       | Inr s \<Rightarrow> st_iter s = 1 \<and> st_err s = Some 0 \<and> st_dx s = [0, 0, 0])"
proof -
  let ?J = "[[1 / 320000, - (1 / 320000), 1], [- (1 / 320000), 13 / 4000000, 0], [1, 0, 0::real]]"
  let ?b = "[0, 0, 10000::real]"
  have lin: "\<forall>e\<in>set (elems series_circuit). linear_elem e"
    by (simp add: series_circuit_eq)
  have one: "get_MMFs_number series_circuit = 1"
    by (simp add: series_circuit_eq get_MMFs_number_def len_def)
  have size: "0 \<le> get_nodes_number series_circuit + get_MMFs_number series_circuit - 1"
    and n: "3 = nat (get_nodes_number series_circuit + get_MMFs_number series_circuit - 1)"
    by (simp_all add: series_circuit_eq get_nodes_number_def get_MMFs_number_def len_def)
  have bnz: "?b \<noteq> zeros_vec 3" by (simp add: zeros_vec_def numeral_3_eq_3)
  from linear_circuit_converges [OF lin size n series_assembly series_nonsingular bnz,
      of zero_pivot 1]
  obtain x0 s where l: "length x0 = 3" and mv: "mat_vec ?J x0 = ?b"
    and ss: "solve_state zero_pivot (1 / 800000) series_circuit 1 = Inr s"
    and it: "st_iter s = 1" and dx: "st_dx s = zeros_vec 3" and er: "st_err s = Some 0"
    and sc: "solve_circuit zero_pivot (1 / 800000) series_circuit 1 = Inr x0" by blast
  have x0: "x0 = [10000, 125000 / 13, - (1 / 832)]"
    using gauss_zip_solution [OF series_matrix_shape _ series_gauss] l mv by simp
  have c5: "solve_circuit zero_pivot (1 / 800000) series_circuit 1
       = Inr [10000, 125000 / 13, - (1 / 832)]"
    using sc x0 by simp
  have c6: "case solve_state zero_pivot (1 / 800000) series_circuit 1 of
         Inl e \<Rightarrow> False
       | Inr s \<Rightarrow> st_iter s = 1 \<and> st_err s = Some 0 \<and> st_dx s = [0, 0, 0]"
    unfolding ss sum.case using it dx er by (simp add: zeros_vec_def numeral_3_eq_3)
  show ?thesis
    apply (intro conjI)
    subgoal using lin by (simp add: list_all_iff)
    subgoal by (rule one)
    subgoal by (rule series_assembly)
    subgoal by (rule series_nonsingular)
    subgoal by (rule c5)
    subgoal by (rule c6)
    done
qed

section \<open>The operating point of a permeance\<close>

lemma py_index_nonneg: "py_index n i = Inr j \<Longrightarrow> 0 \<le> i \<Longrightarrow> j = nat i"
  by (auto simp add: py_index_def Let_def split: if_splits)

lemma vec_get_nonneg: "vec_get v i = Inr a \<Longrightarrow> 0 \<le> i \<Longrightarrow> a = v ! nat i"
  by (auto simp add: vec_get_def bind_err_eq_Inr dest: py_index_nonneg)

lemma Permeance_MMF_value:
  assumes "Permeance_MMF p x = Inr mmf"
  shows "mmf = terminal_potential x (n1 p) - terminal_potential x (n2 p)"
proof -
  from assms obtain u1 u2 where
    u1: "(if n1 p - 1 \<ge> 0 then vec_get x (n1 p - 1) else Inr 0) = Inr u1"
    and u2: "(if n2 p - 1 \<ge> 0 then vec_get x (n2 p - 1) else Inr 0) = Inr u2"
    and m: "mmf = u1 - u2"
    unfolding Permeance_MMF_def Let_def bind_err_eq_Inr by blast
  have "u1 = terminal_potential x (n1 p)"
    using u1 vec_get_nonneg [of x "n1 p - 1" u1]
    by (cases "n1 p - 1 \<ge> 0") (simp_all add: terminal_potential_def)
  moreover have "u2 = terminal_potential x (n2 p)"
    using u2 vec_get_nonneg [of x "n2 p - 1" u2]
    by (cases "n2 p - 1 \<ge> 0") (simp_all add: terminal_potential_def)
  ultimately show ?thesis using m by simp
qed

lemma Permeance_H_value:
  assumes "Permeance_H p x = Inr h"
  shows "l p \<noteq> 0 \<and> h = (terminal_potential x (n1 p) - terminal_potential x (n2 p)) / l p * 1000"
proof -
  from assms obtain mmf q where m: "Permeance_MMF p x = Inr mmf"
    and q: "fdiv mmf (l p) = Inr q" and h: "h = q * 1000"
    unfolding Permeance_H_def bind_err_eq_Inr by blast
  from q have "l p \<noteq> 0" "q = mmf / l p" by (auto simp add: fdiv_def split: if_splits)
  then show ?thesis using h Permeance_MMF_value [OF m] by simp
qed

lemma update_mur_elem_refreshed:
  assumes "update_mur_elem mu0 mods x e = Inr e'"
  shows "refreshed mu0 mods x e e'"
proof (cases e)
  case (Permeance p)
  show ?thesis
  proof (cases "model_label p")
    case None
    have "e' = Permeance p" using assms Permeance None by simp
    then show ?thesis unfolding Permeance by (simp add: None)
  next
    case (Some lbl)
    show ?thesis
    proof (cases "mods lbl")
      case None
      then show ?thesis using assms Permeance Some by simp
    next
      case (Some model)
      from assms obtain h v vd where h: "Permeance_H p x = Inr h"
        and v: "bh_model_mur mu0 model \<bar>h\<bar> = Inr v"
        and vd: "bh_model_mur_d mu0 model \<bar>h\<bar> = Inr vd"
        and e': "e' = Permeance (p\<lparr>mur := v, mur_d := vd\<rparr>)"
        unfolding Permeance update_mur_elem.simps \<open>model_label p = Some lbl\<close> Some option.case
          Let_def bind_err_eq_Inr
        by blast
      from Permeance_H_value [OF h] v vd e' show ?thesis
        unfolding Permeance refreshed.simps \<open>model_label p = Some lbl\<close> option.case
        using Some by blast
    qed
  qed
next
  case (MMFSource s)
  have "e' = MMFSource s" using assms MMFSource by simp
  then show ?thesis unfolding MMFSource by simp
next
  case (PHISource s)
  have "e' = PHISource s" using assms PHISource by simp
  then show ?thesis unfolding PHISource by simp
qed

lemma update_mur_list_refreshed:
  "update_mur_list mu0 mods x es = Inr es' \<Longrightarrow>
     length es' = length es \<and> (\<forall>i<length es. refreshed mu0 mods x (es ! i) (es' ! i))"
proof (induction es arbitrary: es')
  case Nil
  then show ?case by simp
next
  case (Cons e es)
  from Cons.prems obtain e1 es1 where e1: "update_mur_elem mu0 mods x e = Inr e1"
    and es1: "update_mur_list mu0 mods x es = Inr es1" and es': "es' = e1 # es1"
    unfolding update_mur_list.simps bind_err_eq_Inr by blast
  from Cons.IH [OF es1] have ih: "length es1 = length es"
    "\<forall>i<length es. refreshed mu0 mods x (es ! i) (es1 ! i)" by simp_all
  have "refreshed mu0 mods x ((e # es) ! i) (es' ! i)" if "i < length (e # es)" for i
    using that ih(2) update_mur_elem_refreshed [OF e1] es' by (cases i) simp_all
  then show ?case using ih(1) es' by simp
qed

text \<open>
  C3, amended: an assembly pass starts with \<open>update_mur\<close>; an element with a model label
  gets \<open>mur = model.mur(H)\<close> and \<open>mur_d = model.mur_d(H)\<close> at
  \<open>H = |MMF(x)/l * 1000|\<close>, where \<open>MMF(x)\<close> is the difference of the terminal potentials
  (0 at ground); every other element is unchanged; the matrices are stamped from the
  updated elements.
\<close>

theorem update_mur_operating_point:
  assumes "make_system_matrix mu0 c x = Inr (c', J, b)"
  shows "update_mur mu0 c x = Inr c'
       \<and> length (elems c') = length (elems c)
       \<and> (\<forall>i<length (elems c). refreshed mu0 (models c) x (elems c ! i) (elems c' ! i))
       \<and> (\<exists>S A b0. stamp_elems mu0 (elems c')
                      (zeros_mat (length x), zeros_mat (length x), zeros_vec (length x)) = Inr S
             \<and> stamp_mmfs (elems c') (get_nodes_number c' - 1) S = Inr (A, J, b0)
             \<and> b = vec_sub b0 (mat_vec A x))"
proof -
  from assms obtain c1 S A b0 where
    u: "update_mur mu0 c x = Inr c1"
    and S: "stamp_elems mu0 (elems c1) (zeros_mat (length x), zeros_mat (length x), zeros_vec (length x)) = Inr S"
    and S2: "stamp_mmfs (elems c1) (get_nodes_number c1 - 1) S = Inr (A, J, b0)"
    and b: "b = vec_sub b0 (mat_vec A x)" and c1: "c1 = c'"
    by (auto simp add: make_system_matrix_def bind_err_eq_Inr Let_def split: prod.splits)
  from u obtain es where es: "update_mur_list mu0 (models c) x (elems c) = Inr es"
    and c1': "c1 = c\<lparr>elems := es\<rparr>"
    unfolding update_mur_def bind_err_eq_Inr by auto
  from update_mur_list_refreshed [OF es] have
    "length (elems c1) = length (elems c)"
    "\<forall>i<length (elems c). refreshed mu0 (models c) x (elems c ! i) (elems c1 ! i)"
    by (simp_all add: c1')
  then show ?thesis using u S S2 b unfolding c1 by blast
qed

text \<open>
  C3, as stated, fails: for the permeance of \<open>nl_circuit\<close> (\<open>l = 1000\<close>) at potential 2
  the code evaluates the model at \<open>H = 2\<close>, the stated formula \<open>|MMF|/l\<close> at \<open>1/500\<close>.
\<close>

theorem operating_point_counterexample:
  "update_mur_elem (1 / 800000) [''quad'' \<mapsto> quad_model] [2]
      (Permeance (Permeance_init ''Rc'' 1 0 1 1000 1000 1000 (Some ''quad'')))
     = Inr (Permeance ((Permeance_init ''Rc'' 1 0 1 1000 1000 1000 (Some ''quad''))
              \<lparr>mur := 784000, mur_d := 768000\<rparr>))
   \<and> spec_update_mur_elem (1 / 800000) [''quad'' \<mapsto> quad_model] [2]
      (Permeance_init ''Rc'' 1 0 1 1000 1000 1000 (Some ''quad'')) quad_model
     = Inr (Permeance ((Permeance_init ''Rc'' 1 0 1 1000 1000 1000 (Some ''quad''))
              \<lparr>mur := 799984, mur_d := 799968\<rparr>))
   \<and> update_mur_elem (1 / 800000) [''quad'' \<mapsto> quad_model] [2]
      (Permeance (Permeance_init ''Rc'' 1 0 1 1000 1000 1000 (Some ''quad'')))
     \<noteq> spec_update_mur_elem (1 / 800000) [''quad'' \<mapsto> quad_model] [2]
      (Permeance_init ''Rc'' 1 0 1 1000 1000 1000 (Some ''quad'')) quad_model"
  by (simp add: spec_update_mur_elem_def spec_H_def Permeance_init_def assembly_defs array_defs
      quad_model_def Let_def)

theorem update_mur_operating_point_witness:
  "make_system_matrix (1 / 800000) nl_circuit [2] = Inr (st_circ nl_state1, [[24 / 25]], [1 / 50])
   \<and> update_mur (1 / 800000) nl_circuit [2] = Inr (st_circ nl_state1)
   \<and> elems (st_circ nl_state1) ! 1 =
       Permeance ((Permeance_init ''Rc'' 1 0 1 1000 1000 1000 (Some ''quad''))
         \<lparr>mur := 784000, mur_d := 768000\<rparr>)
   \<and> bh_model_mur (1 / 800000) quad_model \<bar>(2 - 0) / 1000 * 1000\<bar> = Inr 784000"
  using update_mur_operating_point [OF nl_assembly1] nl_assembly1
  by (simp add: nl_state1_def Permeance_init_def bh_model_mur_def quad_model_def fdiv_def
      bind_err_def)

end
